theory Spec2Isabelle
  imports Complex_Main
begin

section \<open>The countdown clock (Countdown.js)\<close>

text \<open>
  Instants and durations are JavaScript time values: whole milliseconds, modelled as
  \<open>int\<close>. \<open>Math.floor (a / b)\<close> on whole numbers with \<open>b > 0\<close> is \<open>a div b\<close>
  (HOL's \<open>div\<close> on \<open>int\<close> rounds towards minus infinity, as \<open>Math.floor\<close> does).
  JavaScript's \<open>%\<close> is the remainder of the truncating division: its result has the sign
  of the dividend.
\<close>

definition js_rem :: "int \<Rightarrow> int \<Rightarrow> int" where
  "js_rem a b = sgn a * (\<bar>a\<bar> mod \<bar>b\<bar>)"

record time_units =
  days :: int
  hours :: int
  minutes :: int
  seconds :: int

text \<open>\<open>Countdown.calculateTimeUnits(diff)\<close>.\<close>

definition calculateTimeUnits :: "int \<Rightarrow> time_units" where
  "calculateTimeUnits diff =
     (let seconds = diff div 1000;
          minutes = seconds div 60;
          hours = minutes div 60;
          days = hours div 24
      in \<lparr> days = days,
           hours = js_rem hours 24,
           minutes = js_rem minutes 60,
           seconds = js_rem seconds 60 \<rparr>)"

datatype unit_key = Days | Hours | Minutes | Seconds

text \<open>
  The state of a \<open>Countdown\<close> object together with the part of the browser it acts on.
  \<open>elements k\<close> is the \<open>textContent\<close> of the element cached for key \<open>k\<close>, and
  \<open>None\<close> where \<open>document.getElementById\<close> returned \<open>null\<close>. \<open>timers\<close> holds the
  identifiers of the intervals that are currently installed, \<open>nextTimer\<close> the identifier
  the next \<open>setInterval\<close> returns (identifiers are positive). \<open>console\<close> collects the
  log lines (in ASCII paraphrase), \<open>alerts\<close> counts the scheduled congratulation alerts,
  \<open>celebrations\<close> the calls of \<open>massiveCelebration\<close> on the fireworks component
  (\<open>fireworksComponent\<close> tells whether \<open>window.app\<close> has one), and \<open>newYearCalls\<close>
  counts the entries into \<open>handleNewYear\<close>.
\<close>

record countdown =
  targetDate :: int
  updateInterval :: int
  intervalId :: "nat option"
  elements :: "unit_key \<Rightarrow> string option"
  timers :: "nat list"
  nextTimer :: nat
  console :: "string list"
  alerts :: nat
  celebrations :: nat
  fireworksComponent :: bool
  newYearCalls :: nat

text \<open>
  The constructor with \<open>cacheElements\<close>: \<open>page k\<close> is what \<open>getElementById\<close> finds for
  the element of key \<open>k\<close>. A missing element is stored as \<open>null\<close>; nothing is checked or
  reported here.
\<close>

definition new_Countdown :: "int \<Rightarrow> (unit_key \<Rightarrow> string option) \<Rightarrow> bool \<Rightarrow> countdown" where
  "new_Countdown target page fw =
     \<lparr> targetDate = target, updateInterval = 1000, intervalId = None, elements = page,
       timers = [], nextTimer = 1, console = [], alerts = 0, celebrations = 0,
       fireworksComponent = fw, newYearCalls = 0 \<rparr>"

text \<open>A timer identifier in a condition: \<open>null\<close> and \<open>0\<close> are falsy.\<close>

definition truthy_id :: "nat option \<Rightarrow> bool" where
  "truthy_id i = (case i of None \<Rightarrow> False | Some n \<Rightarrow> n \<noteq> 0)"

text \<open>\<open>Countdown.stop()\<close>.\<close>

definition Countdown_stop :: "countdown \<Rightarrow> countdown" where
  "Countdown_stop c =
     (if truthy_id (intervalId c)
      then c\<lparr> timers := removeAll (the (intervalId c)) (timers c),
              intervalId := None,
              console := console c @ [''countdown stopped''] \<rparr>
      else c)"

text \<open>\<open>String(value).padStart(2, '0')\<close> for a whole number.\<close>

fun digits :: "nat \<Rightarrow> string" where
  "digits n = (if n < 10 then [''0123456789'' ! n]
               else digits (n div 10) @ [''0123456789'' ! (n mod 10)])"

definition js_String :: "int \<Rightarrow> string" where
  "js_String v = (if v < 0 then CHR ''-'' # digits (nat (- v)) else digits (nat v))"

definition padStart2 :: "string \<Rightarrow> string" where
  "padStart2 s = replicate (2 - length s) CHR ''0'' @ s"

definition unit_value :: "time_units \<Rightarrow> unit_key \<Rightarrow> int" where
  "unit_value t k = (case k of Days \<Rightarrow> days t | Hours \<Rightarrow> hours t
                             | Minutes \<Rightarrow> minutes t | Seconds \<Rightarrow> seconds t)"

text \<open>
  One round of the loop of \<open>updateDisplay\<close>: the element is written only under the guard
  \<open>if (element)\<close>. \<open>animateNumberChange\<close> sets the text when its tween completes; the
  tween's delay is not modelled, the text is set at once.
\<close>

definition updateUnit :: "time_units \<Rightarrow> unit_key \<Rightarrow> countdown \<Rightarrow> countdown" where
  "updateUnit t k c =
     (case elements c k of
        None \<Rightarrow> c
      | Some txt \<Rightarrow>
          (let formattedValue = padStart2 (js_String (unit_value t k))
           in if txt \<noteq> formattedValue
              then c\<lparr> elements := (elements c)(k := Some formattedValue) \<rparr>
              else c))"

definition updateDisplay :: "time_units \<Rightarrow> countdown \<Rightarrow> countdown" where
  "updateDisplay t c = fold (updateUnit t) [Days, Hours, Minutes, Seconds] c"

text \<open>\<open>checkSpecialMoments\<close> with \<open>triggerSpecialEvent\<close>, which only logs.\<close>

definition checkSpecialMoments :: "time_units \<Rightarrow> countdown \<Rightarrow> countdown" where
  "checkSpecialMoments t c =
     (let c1 = (if days t = 0 \<and> hours t = 1 \<and> minutes t = 0 \<and> seconds t = 0
                then c\<lparr> console := console c @ [''special: hour_to_new_year''] \<rparr> else c);
          c2 = (if days t = 0 \<and> hours t = 0 \<and> minutes t = 10 \<and> seconds t = 0
                then c1\<lparr> console := console c1 @ [''special: ten_minutes_to_new_year''] \<rparr> else c1)
      in if days t = 0 \<and> hours t = 0 \<and> minutes t = 1 \<and> seconds t = 0
         then c2\<lparr> console := console c2 @ [''special: one_minute_to_new_year''] \<rparr> else c2)"

text \<open>\<open>showCongratulations\<close>: every present element shows 00, an alert is scheduled.\<close>

definition showCongratulations :: "countdown \<Rightarrow> countdown" where
  "showCongratulations c =
     c\<lparr> elements := (\<lambda>k. case elements c k of None \<Rightarrow> None | Some _ \<Rightarrow> Some ''00''),
        alerts := alerts c + 1 \<rparr>"

text \<open>\<open>handleNewYear\<close>, the terminal event.\<close>

definition handleNewYear :: "countdown \<Rightarrow> countdown" where
  "handleNewYear c =
     (let c1 = Countdown_stop (c\<lparr> newYearCalls := newYearCalls c + 1 \<rparr>);
          c2 = showCongratulations c1;
          c3 = (if fireworksComponent c2 then c2\<lparr> celebrations := celebrations c2 + 1 \<rparr> else c2)
      in c3\<lparr> console := console c3 @ [''happy new year''] \<rparr>)"

text \<open>\<open>update()\<close>, with the reading of the wall clock (\<open>new Date()\<close>) as the argument \<open>now\<close>.\<close>

definition Countdown_update :: "int \<Rightarrow> countdown \<Rightarrow> countdown" where
  "Countdown_update now c =
     (let diff = targetDate c - now
      in if diff \<le> 0 then handleNewYear c
         else (let time = calculateTimeUnits diff
               in checkSpecialMoments time (updateDisplay time c)))"

text \<open>\<open>start()\<close>: the first update runs before the interval is installed.\<close>

definition Countdown_start :: "int \<Rightarrow> countdown \<Rightarrow> countdown" where
  "Countdown_start now c =
     (if truthy_id (intervalId c) then c
      else (let c1 = Countdown_update now c
            in c1\<lparr> intervalId := Some (nextTimer c1),
                    timers := timers c1 @ [nextTimer c1],
                    nextTimer := nextTimer c1 + 1,
                    console := console c1 @ [''countdown started''] \<rparr>))"

text \<open>The callback of interval \<open>i\<close> runs \<open>update\<close>, as long as the interval is installed.\<close>

definition Countdown_tick :: "nat \<Rightarrow> int \<Rightarrow> countdown \<Rightarrow> countdown" where
  "Countdown_tick i now c = (if i \<in> set (timers c) then Countdown_update now c else c)"

text \<open>\<open>getRemainingTime()\<close>, again with the wall clock as an argument.\<close>

definition getRemainingTime :: "int \<Rightarrow> countdown \<Rightarrow> time_units" where
  "getRemainingTime now c = (let diff = targetDate c - now in calculateTimeUnits diff)"

text \<open>An execution of the clock: calls of \<open>start\<close> and \<open>stop\<close> and firings of its intervals.\<close>

datatype clock_event = Start int | Stop | Tick nat int

fun clock_step :: "countdown \<Rightarrow> clock_event \<Rightarrow> countdown" where
  "clock_step c (Start now) = Countdown_start now c"
| "clock_step c Stop = Countdown_stop c"
| "clock_step c (Tick i now) = Countdown_tick i now c"

definition clock_run :: "clock_event list \<Rightarrow> countdown \<Rightarrow> countdown" where
  "clock_run es c = foldl clock_step c es"


section \<open>Projectiles and explosion points (Fireworks.js)\<close>

text \<open>
  JavaScript numbers are modelled as \<open>real\<close>: the arithmetic of the particles is the exact
  arithmetic that the IEEE doubles of the source approximate, and rounding is not
  modelled. \<open>Math.sqrt\<close>, \<open>Math.cos\<close>, \<open>Math.sin\<close> and \<open>Math.PI\<close> are \<open>sqrt\<close>,
  \<open>cos\<close>, \<open>sin\<close> and \<open>pi\<close>. \<open>Math.atan2 (y, x)\<close> is the angle of the point
  \<open>(x, y)\<close> in the interval from \<open>- pi\<close> to \<open>pi\<close>, and 0 at the origin. Each call of
  \<open>Math.random ()\<close> is an argument of the function that makes it: a number \<open>r\<close> with
  \<open>0 \<le> r < 1\<close>.

  Both particle classes have fields \<open>x\<close>, \<open>y\<close>, \<open>speed\<close> and so on; the fields of the
  records carry the prefix \<open>fw_\<close> (\<open>FireworkParticle\<close>) or \<open>ex_\<close>
  (\<open>ExplosionParticle\<close>). The reference \<open>ctx\<close> to the drawing context and the
  counter \<open>coordinateCount\<close>, which only builds the initial trail, are left out.
\<close>

definition atan2 :: "real \<Rightarrow> real \<Rightarrow> real" where
  "atan2 y x =
     (if 0 < x then arctan (y / x)
      else if x < 0 \<and> 0 \<le> y then arctan (y / x) + pi
      else if x < 0 \<and> y < 0 then arctan (y / x) - pi
      else if 0 < y then pi / 2
      else if y < 0 then - (pi / 2)
      else 0)"

record color =
  hue :: int
  saturation :: int

record FireworkParticle =
  fw_x :: real
  fw_y :: real
  fw_startX :: real
  fw_startY :: real
  fw_targetX :: real
  fw_targetY :: real
  fw_color :: "color option"
  fw_coordinates :: "(real \<times> real) list"
  fw_angle :: real
  fw_speed :: real
  fw_acceleration :: real
  fw_brightness :: int
  fw_distance :: real
  fw_currentDistance :: real

text \<open>\<open>FireworkParticle.calculateDistance()\<close>.\<close>

definition FireworkParticle_calculateDistance :: "FireworkParticle \<Rightarrow> real" where
  "FireworkParticle_calculateDistance p =
     (let dx = fw_targetX p - fw_startX p;
          dy = fw_targetY p - fw_startY p
      in sqrt (dx * dx + dy * dy))"

text \<open>\<open>FireworkParticle.initialize()\<close>; \<open>r\<close> is the random number of the brightness.\<close>

definition FireworkParticle_initialize :: "real \<Rightarrow> FireworkParticle \<Rightarrow> FireworkParticle" where
  "FireworkParticle_initialize r p =
     p\<lparr> fw_coordinates := replicate 3 (fw_x p, fw_y p),
        fw_angle := atan2 (fw_targetY p - fw_startY p) (fw_targetX p - fw_startX p),
        fw_speed := 2,
        fw_acceleration := 102 / 100,
        fw_brightness := \<lfloor>r * 20\<rfloor> + 70,
        fw_distance := FireworkParticle_calculateDistance p,
        fw_currentDistance := 0 \<rparr>"

text \<open>
  The constructor \<open>new FireworkParticle (x1, y1, x2, y2, ctx, color)\<close>. The fields that
  \<open>initialize\<close> assigns have no value before; the record holds 0 and the empty list there.
\<close>

definition new_FireworkParticle ::
  "real \<Rightarrow> real \<Rightarrow> real \<Rightarrow> real \<Rightarrow> color option \<Rightarrow> real \<Rightarrow> FireworkParticle" where
  "new_FireworkParticle x1 y1 x2 y2 c r =
     FireworkParticle_initialize r
       \<lparr> fw_x = x1, fw_y = y1, fw_startX = x1, fw_startY = y1, fw_targetX = x2,
         fw_targetY = y2, fw_color = c, fw_coordinates = [], fw_angle = 0, fw_speed = 0,
         fw_acceleration = 0, fw_brightness = 0, fw_distance = 0, fw_currentDistance = 0 \<rparr>"

text \<open>
  \<open>FireworkParticle.update()\<close>: the new state and the returned flag. \<open>pop\<close> drops the
  last entry of the trail and \<open>unshift\<close> puts the position in front.
\<close>

definition FireworkParticle_update :: "FireworkParticle \<Rightarrow> FireworkParticle \<times> bool" where
  "FireworkParticle_update p =
     (let coords = (fw_x p, fw_y p) # butlast (fw_coordinates p);
          speed = fw_speed p * fw_acceleration p;
          vx = cos (fw_angle p) * speed;
          vy = sin (fw_angle p) * speed;
          x' = fw_x p + vx;
          y' = fw_y p + vy;
          dx = x' - fw_startX p;
          dy = y' - fw_startY p;
          cur = sqrt (dx * dx + dy * dy)
      in (p\<lparr> fw_coordinates := coords, fw_speed := speed, fw_x := x', fw_y := y',
              fw_currentDistance := cur \<rparr>,
          fw_distance p \<le> cur))"

text \<open>The projectile after \<open>n\<close> ticks, and the flag that the tick after them returns.\<close>

fun fw_after :: "nat \<Rightarrow> FireworkParticle \<Rightarrow> FireworkParticle" where
  "fw_after 0 p = p"
| "fw_after (Suc n) p = fw_after n (fst (FireworkParticle_update p))"

definition fw_reached :: "nat \<Rightarrow> FireworkParticle \<Rightarrow> bool" where
  "fw_reached n p = snd (FireworkParticle_update (fw_after n p))"

text \<open>
  The life of a projectile in the simulation loop: it is updated once per tick until
  \<open>update\<close> returns true, and is removed then. \<open>fw_flight k p\<close> is the number of the tick
  that removes \<open>p\<close>, or \<open>None\<close> when \<open>k\<close> ticks do not suffice.
\<close>

fun fw_flight :: "nat \<Rightarrow> FireworkParticle \<Rightarrow> nat option" where
  "fw_flight 0 p = None"
| "fw_flight (Suc k) p =
     (if snd (FireworkParticle_update p) then Some 1
      else map_option Suc (fw_flight k (fst (FireworkParticle_update p))))"

record ExplosionParticle =
  ex_x :: real
  ex_y :: real
  ex_color :: "color option"
  ex_coordinates :: "(real \<times> real) list"
  ex_angle :: real
  ex_speed :: real
  ex_friction :: real
  ex_gravity :: real
  ex_brightness :: int
  ex_alpha :: real
  ex_decay :: real

text \<open>
  \<open>ExplosionParticle.initialize()\<close>; \<open>ra\<close>, \<open>rs\<close>, \<open>rb\<close>, \<open>ro\<close> and \<open>rd\<close> are the
  random numbers of the angle, the speed, the brightness, the opacity and the decay, in
  the order of the calls.
\<close>

definition ExplosionParticle_initialize ::
  "real \<Rightarrow> real \<Rightarrow> real \<Rightarrow> real \<Rightarrow> real \<Rightarrow> ExplosionParticle \<Rightarrow> ExplosionParticle" where
  "ExplosionParticle_initialize ra rs rb ro rd p =
     p\<lparr> ex_coordinates := replicate 5 (ex_x p, ex_y p),
        ex_angle := ra * pi * 2,
        ex_speed := rs * 9 + 1,
        ex_friction := 95 / 100,
        ex_gravity := 6 / 10,
        ex_brightness := \<lfloor>rb * 25\<rfloor> + 70,
        ex_alpha := ro * (1 / 10) + 9 / 10,
        ex_decay := rd * (15 / 1000) + 1 / 100 \<rparr>"

definition new_ExplosionParticle ::
  "real \<Rightarrow> real \<Rightarrow> color option \<Rightarrow> real \<Rightarrow> real \<Rightarrow> real \<Rightarrow> real \<Rightarrow> real \<Rightarrow> ExplosionParticle" where
  "new_ExplosionParticle x0 y0 c ra rs rb ro rd =
     ExplosionParticle_initialize ra rs rb ro rd
       \<lparr> ex_x = x0, ex_y = y0, ex_color = c, ex_coordinates = [], ex_angle = 0, ex_speed = 0,
         ex_friction = 0, ex_gravity = 0, ex_brightness = 0, ex_alpha = 0, ex_decay = 0 \<rparr>"

text \<open>\<open>ExplosionParticle.update()\<close>: the new state and the returned flag.\<close>

definition ExplosionParticle_update :: "ExplosionParticle \<Rightarrow> ExplosionParticle \<times> bool" where
  "ExplosionParticle_update p =
     (let coords = (ex_x p, ex_y p) # butlast (ex_coordinates p);
          speed = ex_speed p * ex_friction p;
          x' = ex_x p + cos (ex_angle p) * speed;
          y' = ex_y p + (sin (ex_angle p) * speed + ex_gravity p);
          alpha = ex_alpha p - ex_decay p
      in (p\<lparr> ex_coordinates := coords, ex_speed := speed, ex_x := x', ex_y := y',
              ex_alpha := alpha \<rparr>,
          alpha \<le> 1 / 100))"

fun ex_after :: "nat \<Rightarrow> ExplosionParticle \<Rightarrow> ExplosionParticle" where
  "ex_after 0 p = p"
| "ex_after (Suc n) p = ex_after n (fst (ExplosionParticle_update p))"

text \<open>
  The life of an explosion point in the loop, as for a projectile: \<open>ex_life k p\<close> is the
  number of the tick that removes \<open>p\<close>, or \<open>None\<close> when \<open>k\<close> ticks do not suffice.
\<close>

fun ex_life :: "nat \<Rightarrow> ExplosionParticle \<Rightarrow> nat option" where
  "ex_life 0 p = None"
| "ex_life (Suc k) p =
     (if snd (ExplosionParticle_update p) then Some 1
      else map_option Suc (ex_life k (fst (ExplosionParticle_update p))))"

section \<open>The simulation loop (Fireworks.js)\<close>

text \<open>
  A failing access to a property of \<open>null\<close> or \<open>undefined\<close> raises a \<open>TypeError\<close>; the
  operations that can raise return \<open>js_error + 'a\<close>. Drawing changes pixels only, which
  are not modelled; what remains of the \<open>draw\<close> methods are their early returns and their
  read of \<open>this.color.hue\<close>, which raises when the colour is \<open>undefined\<close>.
\<close>

datatype js_error = TypeError

datatype drawing_context = Context2D

datatype timeout_action = SpawnFirework | SpawnBurst int

definition FireworkParticle_draw :: "FireworkParticle \<Rightarrow> js_error + unit" where
  "FireworkParticle_draw p =
     (if length (fw_coordinates p) < 2 then Inr ()
      else if fw_color p = None then Inl TypeError
      else Inr ())"

definition ExplosionParticle_draw :: "ExplosionParticle \<Rightarrow> js_error + unit" where
  "ExplosionParticle_draw p =
     (if length (ex_coordinates p) < 2 \<or> ex_alpha p \<le> 0 then Inr ()
      else if ex_color p = None then Inl TypeError
      else Inr ())"

text \<open>
  The state of a \<open>Fireworks\<close> object and of the browser around it. \<open>canvas\<close> is the size
  (width, height) of the canvas element, \<open>None\<close> when \<open>getElementById\<close> returned
  \<open>null\<close>. Of the settings only the ones that the code reads are kept. \<open>frames\<close> are
  the pending requests of \<open>requestAnimationFrame\<close> (their callback is \<open>loop\<close>),
  \<open>timeouts\<close> the pending \<open>setTimeout\<close> calls with their delays, \<open>rand\<close> the
  sequence of numbers that \<open>Math.random\<close> returns and \<open>randPos\<close> the number of calls
  made so far, \<open>listening\<close> tells whether the resize and click listeners are
  installed, and \<open>fconsole\<close> collects the console lines (in ASCII paraphrase).
\<close>

record Fireworks =
  canvas :: "(real \<times> real) option"
  ctx :: "drawing_context option"
  particleCount :: nat
  simultaneousFireworks :: int
  fireworksPerBurst :: int
  colors :: "color list"
  isRunning :: bool
  fireworks :: "FireworkParticle list"
  particles :: "ExplosionParticle list"
  animationId :: "nat option"
  frames :: "nat list"
  nextFrame :: nat
  timeouts :: "(int \<times> timeout_action) list"
  rand :: "nat \<Rightarrow> real"
  randPos :: nat
  listening :: bool
  fconsole :: "string list"

definition default_colors :: "color list" where
  "default_colors =
     [\<lparr> hue = 0, saturation = 100 \<rparr>, \<lparr> hue = 15, saturation = 100 \<rparr>,
      \<lparr> hue = 30, saturation = 100 \<rparr>, \<lparr> hue = 45, saturation = 100 \<rparr>,
      \<lparr> hue = 60, saturation = 100 \<rparr>, \<lparr> hue = 120, saturation = 100 \<rparr>,
      \<lparr> hue = 180, saturation = 100 \<rparr>, \<lparr> hue = 200, saturation = 100 \<rparr>,
      \<lparr> hue = 240, saturation = 100 \<rparr>, \<lparr> hue = 270, saturation = 80 \<rparr>,
      \<lparr> hue = 300, saturation = 80 \<rparr>, \<lparr> hue = 330, saturation = 80 \<rparr>,
      \<lparr> hue = 50, saturation = 100 \<rparr>, \<lparr> hue = 220, saturation = 30 \<rparr>,
      \<lparr> hue = 40, saturation = 90 \<rparr>, \<lparr> hue = 150, saturation = 70 \<rparr>]"

text \<open>
  \<open>initializeCanvas()\<close>: \<open>found\<close> tells whether the page has the canvas element,
  \<open>w\<close> and \<open>h\<close> are \<open>window.innerWidth\<close> and \<open>window.innerHeight\<close>, which
  \<open>resizeCanvas\<close> copies to the canvas.
\<close>

definition initializeCanvas :: "bool \<Rightarrow> real \<Rightarrow> real \<Rightarrow> Fireworks \<Rightarrow> Fireworks" where
  "initializeCanvas found w h s =
     (if \<not> found
      then s\<lparr> canvas := None, fconsole := fconsole s @ [''error: fireworks canvas not found''] \<rparr>
      else s\<lparr> canvas := Some (w, h), ctx := Some Context2D, listening := True \<rparr>)"

text \<open>The constructor with the default settings; \<open>R\<close> is the sequence of random numbers.\<close>

definition new_Fireworks :: "bool \<Rightarrow> real \<Rightarrow> real \<Rightarrow> (nat \<Rightarrow> real) \<Rightarrow> Fireworks" where
  "new_Fireworks found w h R =
     initializeCanvas found w h
       \<lparr> canvas = None, ctx = None, particleCount = 120, simultaneousFireworks = 8,
         fireworksPerBurst = 8, colors = default_colors, isRunning = False, fireworks = [],
         particles = [], animationId = None, frames = [], nextFrame = 1, timeouts = [],
         rand = R, randPos = 0, listening = False, fconsole = [] \<rparr>"

text \<open>\<open>resizeCanvas()\<close>, the callback of the resize listener.\<close>

definition resizeCanvas :: "real \<Rightarrow> real \<Rightarrow> Fireworks \<Rightarrow> js_error + Fireworks" where
  "resizeCanvas w h s =
     (case canvas s of None \<Rightarrow> Inl TypeError | Some _ \<Rightarrow> Inr (s\<lparr> canvas := Some (w, h) \<rparr>))"

definition Math_random :: "Fireworks \<Rightarrow> real \<times> Fireworks" where
  "Math_random s = (rand s (randPos s), s\<lparr> randPos := randPos s + 1 \<rparr>)"

text \<open>\<open>randomRange(min, max)\<close>.\<close>

definition randomRange :: "real \<Rightarrow> real \<Rightarrow> Fireworks \<Rightarrow> real \<times> Fireworks" where
  "randomRange lo hi s = (let (r, s1) = Math_random s in (r * (hi - lo) + lo, s1))"

text \<open>\<open>getRandomColor()\<close>; an index outside the palette reads \<open>undefined\<close>.\<close>

definition getRandomColor :: "Fireworks \<Rightarrow> color option \<times> Fireworks" where
  "getRandomColor s =
     (let (r, s1) = Math_random s;
          i = nat \<lfloor>r * real (length (colors s))\<rfloor>
      in (if i < length (colors s) then Some (colors s ! i) else None, s1))"

text \<open>
  \<open>createParticles(x, y, color)\<close>: \<open>particleCount\<close> pushes, each construction drawing
  five random numbers.
\<close>

fun createParticles_loop ::
  "nat \<Rightarrow> real \<Rightarrow> real \<Rightarrow> color option \<Rightarrow> Fireworks \<Rightarrow> Fireworks" where
  "createParticles_loop 0 x0 y0 c s = s"
| "createParticles_loop (Suc n) x0 y0 c s =
     createParticles_loop n x0 y0 c
       (s\<lparr> particles := particles s @
               [new_ExplosionParticle x0 y0 c (rand s (randPos s)) (rand s (randPos s + 1))
                  (rand s (randPos s + 2)) (rand s (randPos s + 3)) (rand s (randPos s + 4))],
            randPos := randPos s + 5 \<rparr>)"

definition createParticles :: "real \<Rightarrow> real \<Rightarrow> color option \<Rightarrow> Fireworks \<Rightarrow> Fireworks" where
  "createParticles x0 y0 c s = createParticles_loop (particleCount s) x0 y0 c s"

text \<open>
  \<open>updateFireworks()\<close>: the loop runs from the last index down to 0;
  \<open>updateFireworks_from (Suc i)\<close> is the round at index \<open>i\<close> followed by the rounds
  below it. \<open>update\<close> changes the projectile in place, \<open>splice (i, 1)\<close> removes it.
\<close>

fun updateFireworks_from :: "nat \<Rightarrow> Fireworks \<Rightarrow> js_error + Fireworks" where
  "updateFireworks_from 0 s = Inr s"
| "updateFireworks_from (Suc i) s =
     (if i < length (fireworks s)
      then (let firework = fireworks s ! i
            in case FireworkParticle_draw firework of
                 Inl e \<Rightarrow> Inl e
               | Inr _ \<Rightarrow>
                  (let firework' = fst (FireworkParticle_update firework);
                       s1 = s\<lparr> fireworks := (fireworks s)[i := firework'] \<rparr>
                   in if snd (FireworkParticle_update firework)
                      then (let s2 = createParticles (fw_x firework') (fw_y firework')
                                       (fw_color firework') s1
                            in updateFireworks_from i
                                 (s2\<lparr> fireworks := take i (fireworks s2)
                                                     @ drop (Suc i) (fireworks s2) \<rparr>))
                      else updateFireworks_from i s1))
      else Inl TypeError)"

definition updateFireworks :: "Fireworks \<Rightarrow> js_error + Fireworks" where
  "updateFireworks s = updateFireworks_from (length (fireworks s)) s"

text \<open>\<open>updateParticles()\<close>, in the same way.\<close>

fun updateParticles_from :: "nat \<Rightarrow> Fireworks \<Rightarrow> js_error + Fireworks" where
  "updateParticles_from 0 s = Inr s"
| "updateParticles_from (Suc i) s =
     (if i < length (particles s)
      then (let particle = particles s ! i
            in case ExplosionParticle_draw particle of
                 Inl e \<Rightarrow> Inl e
               | Inr _ \<Rightarrow>
                  (let particle' = fst (ExplosionParticle_update particle);
                       s1 = s\<lparr> particles := (particles s)[i := particle'] \<rparr>
                   in if snd (ExplosionParticle_update particle)
                      then updateParticles_from i
                             (s1\<lparr> particles := take i (particles s1)
                                                 @ drop (Suc i) (particles s1) \<rparr>)
                      else updateParticles_from i s1))
      else Inl TypeError)"

definition updateParticles :: "Fireworks \<Rightarrow> js_error + Fireworks" where
  "updateParticles s = updateParticles_from (length (particles s)) s"

text \<open>\<open>spawnBurst(count)\<close>: one timeout per projectile, 150 ms apart.\<close>

definition spawnBurst :: "int \<Rightarrow> Fireworks \<Rightarrow> Fireworks" where
  "spawnBurst count s =
     s\<lparr> timeouts := timeouts s @ map (\<lambda>i. (int i * 150, SpawnFirework)) [0..<nat count] \<rparr>"

text \<open>\<open>autoSpawn()\<close>.\<close>

definition autoSpawn :: "Fireworks \<Rightarrow> Fireworks" where
  "autoSpawn s =
     (if int (length (fireworks s)) < simultaneousFireworks s
      then (let needed = min (simultaneousFireworks s - int (length (fireworks s)))
                             (fireworksPerBurst s)
            in if 0 < needed then spawnBurst needed s else s)
      else s)"

text \<open>
  \<open>spawnFirework(x, y, color)\<close>. An argument that is not given is \<open>None\<close>. In
  \<open>x || \<dots>\<close> a number counts as given when it is truthy, that is, not 0; the right
  operand is evaluated, and draws its random number, only otherwise.
\<close>

definition truthy_num :: "real option \<Rightarrow> bool" where
  "truthy_num v = (case v of None \<Rightarrow> False | Some r \<Rightarrow> r \<noteq> 0)"

definition spawnFirework ::
  "real option \<Rightarrow> real option \<Rightarrow> color option \<Rightarrow> Fireworks \<Rightarrow> js_error + Fireworks" where
  "spawnFirework x y color s =
     (case canvas s of
        None \<Rightarrow> Inl TypeError
      | Some (w, h) \<Rightarrow>
          (let (startX, s1) = randomRange 150 (w - 150) s;
               startY = h + 30;
               (targetX, s2) = (if truthy_num x then (the x, s1)
                                else randomRange 100 (w - 100) s1);
               (targetY, s3) = (if truthy_num y then (the y, s2)
                                else randomRange 150 (h * (5 / 10)) s2);
               (fireworkColor, s4) = (case color of Some c \<Rightarrow> (Some c, s3)
                                      | None \<Rightarrow> getRandomColor s3);
               (r, s5) = Math_random s4
           in Inr (s5\<lparr> fireworks := fireworks s5 @
                         [new_FireworkParticle startX startY targetX targetY fireworkColor r] \<rparr>)))"

text \<open>\<open>loop()\<close>: one tick, and the request for the next frame.\<close>

definition Fireworks_loop :: "Fireworks \<Rightarrow> js_error + Fireworks" where
  "Fireworks_loop s =
     (if \<not> isRunning s then Inr s
      else case ctx s of
             None \<Rightarrow> Inl TypeError
           | Some _ \<Rightarrow>
             (case canvas s of
                None \<Rightarrow> Inl TypeError
              | Some _ \<Rightarrow>
                (case updateFireworks s of
                   Inl e \<Rightarrow> Inl e
                 | Inr s1 \<Rightarrow>
                   (case updateParticles s1 of
                      Inl e \<Rightarrow> Inl e
                    | Inr s2 \<Rightarrow>
                      (let s3 = autoSpawn s2
                       in Inr (s3\<lparr> animationId := Some (nextFrame s3),
                                    frames := frames s3 @ [nextFrame s3],
                                    nextFrame := nextFrame s3 + 1 \<rparr>))))))"

text \<open>\<open>start()\<close>, \<open>stop()\<close>, \<open>pause()\<close> and \<open>resume()\<close>.\<close>

definition Fireworks_start :: "Fireworks \<Rightarrow> js_error + Fireworks" where
  "Fireworks_start s =
     (if isRunning s \<or> ctx s = None then Inr s
      else case Fireworks_loop (s\<lparr> isRunning := True, fireworks := [], particles := [] \<rparr>) of
             Inl e \<Rightarrow> Inl e
           | Inr s1 \<Rightarrow> Inr (s1\<lparr> fconsole := fconsole s1 @ [''fireworks started''] \<rparr>))"

definition Fireworks_stop :: "Fireworks \<Rightarrow> js_error + Fireworks" where
  "Fireworks_stop s =
     (let s1 = s\<lparr> isRunning := False \<rparr>;
          s2 = (if truthy_id (animationId s1)
                then s1\<lparr> frames := removeAll (the (animationId s1)) (frames s1),
                         animationId := None \<rparr>
                else s1)
      in if ctx s2 \<noteq> None \<and> canvas s2 = None then Inl TypeError
         else Inr (s2\<lparr> fconsole := fconsole s2 @ [''fireworks stopped''] \<rparr>))"

definition Fireworks_pause :: "Fireworks \<Rightarrow> Fireworks" where
  "Fireworks_pause s = s\<lparr> isRunning := False \<rparr>"

definition Fireworks_resume :: "Fireworks \<Rightarrow> js_error + Fireworks" where
  "Fireworks_resume s =
     (if \<not> isRunning s then Fireworks_loop (s\<lparr> isRunning := True \<rparr>) else Inr s)"

text \<open>\<open>handleClick(event)\<close>: \<open>button\<close> tells whether the target of the click is a button.\<close>

definition handleClick :: "bool \<Rightarrow> real \<Rightarrow> real \<Rightarrow> Fireworks \<Rightarrow> js_error + Fireworks" where
  "handleClick button clientX clientY s =
     (if \<not> isRunning s \<or> button then Inr s
      else spawnFirework (Some clientX) (Some clientY) None s)"

text \<open>\<open>massiveCelebration()\<close>.\<close>

definition massiveCelebration :: "Fireworks \<Rightarrow> Fireworks" where
  "massiveCelebration s =
     (let s1 = spawnBurst 15 s
      in s1\<lparr> timeouts := timeouts s1 @ [(1000, SpawnBurst 10), (2000, SpawnBurst 8)] \<rparr>)"

text \<open>
  What the browser does to the object: it delivers a pending animation frame, fires the
  pending timeout at position \<open>k\<close>, or delivers a click when the listener is installed.
\<close>

definition fire_frame :: "nat \<Rightarrow> Fireworks \<Rightarrow> js_error + Fireworks" where
  "fire_frame f s =
     (if f \<in> set (frames s) then Fireworks_loop (s\<lparr> frames := removeAll f (frames s) \<rparr>)
      else Inr s)"

definition fire_timeout :: "nat \<Rightarrow> Fireworks \<Rightarrow> js_error + Fireworks" where
  "fire_timeout k s =
     (if k < length (timeouts s)
      then (let s1 = s\<lparr> timeouts := take k (timeouts s) @ drop (Suc k) (timeouts s) \<rparr>
            in case snd (timeouts s ! k) of
                 SpawnFirework \<Rightarrow> spawnFirework None None None s1
               | SpawnBurst n \<Rightarrow> Inr (spawnBurst n s1))
      else Inr s)"

definition click :: "bool \<Rightarrow> real \<Rightarrow> real \<Rightarrow> Fireworks \<Rightarrow> js_error + Fireworks" where
  "click button clientX clientY s =
     (if listening s then handleClick button clientX clientY s else Inr s)"

datatype loop_event =
  CallStart | CallStop | CallPause | Frame nat | Click bool real real

fun loop_step :: "Fireworks \<Rightarrow> loop_event \<Rightarrow> js_error + Fireworks" where
  "loop_step s CallStart = Fireworks_start s"
| "loop_step s CallStop = Fireworks_stop s"
| "loop_step s CallPause = Inr (Fireworks_pause s)"
| "loop_step s (Frame f) = fire_frame f s"
| "loop_step s (Click b cx cy) = click b cx cy s"

fun loop_run :: "loop_event list \<Rightarrow> Fireworks \<Rightarrow> js_error + Fireworks" where
  "loop_run [] s = Inr s"
| "loop_run (e # es) s = (case loop_step s e of Inl err \<Rightarrow> Inl err | Inr s1 \<Rightarrow> loop_run es s1)"

section \<open>The opacity of an explosion point in double precision\<close>

text \<open>
  The fields \<open>alpha\<close> and \<open>decay\<close> of an \<open>ExplosionParticle\<close> once more, now with the
  arithmetic of the source: IEEE 754 binary64 with rounding to nearest, ties to even.
  Every finite double is a whole multiple of \<open>2 ^ - 1074\<close>, so a double is modelled as
  the integer \<open>n\<close> with value \<open>n / 2 ^ dscale\<close>, where \<open>dscale\<close> is 1074, and it has
  at most 53 significant bits.
  Sums and differences of such integers are exact and are then rounded to 53 bits; a
  product is a multiple of \<open>2 ^ - 2148\<close> and is rounded to 53 bits or, when it is
  subnormal, to a multiple of \<open>2 ^ - 1074\<close>. Overflow to infinity is not modelled (the
  opacity stays below 2), nor are NaN and the sign of zero.
\<close>

definition dscale :: nat where
  "dscale = 1074"

function bitlength :: "int \<Rightarrow> nat" where
  "bitlength n = (if n \<le> 0 then 0 else Suc (bitlength (n div 2)))"
  by pat_completeness auto
termination
  by (relation "measure nat") auto

declare bitlength.simps [simp del]

text \<open>\<open>round_to sh n\<close> is the multiple of \<open>2 ^ sh\<close> nearest to \<open>n\<close>, ties to the even one.\<close>

definition round_to :: "nat \<Rightarrow> int \<Rightarrow> int" where
  "round_to sh n =
     (let q = n div 2 ^ sh; r = n mod 2 ^ sh
      in (if 2 * r < 2 ^ sh then q
          else if 2 ^ sh < 2 * r then q + 1
          else if even q then q else q + 1) * 2 ^ sh)"

definition round53 :: "int \<Rightarrow> int" where
  "round53 n = round_to (bitlength \<bar>n\<bar> - 53) n"

definition dsub :: "int \<Rightarrow> int \<Rightarrow> int" where
  "dsub a b = round53 (a - b)"

definition dadd :: "int \<Rightarrow> int \<Rightarrow> int" where
  "dadd a b = round53 (a + b)"

definition dmul :: "int \<Rightarrow> int \<Rightarrow> int" where
  "dmul a b = round_to (max (bitlength \<bar>a * b\<bar> - 53) dscale) (a * b) div 2 ^ dscale"

definition dval :: "int \<Rightarrow> real" where
  "dval n = of_int n / 2 ^ dscale"

definition representable :: "int \<Rightarrow> bool" where
  "representable n \<longleftrightarrow> (\<exists>m j. n = m * 2 ^ j \<and> \<bar>m\<bar> < 2 ^ 53)"

text \<open>The doubles that the literals 0.1, 0.9, 0.015 and 0.01 of the source denote.\<close>

definition dbl_0_1 :: int where "dbl_0_1 = 3602879701896397 * 2 ^ (dscale - 55)"

definition dbl_0_9 :: int where "dbl_0_9 = 8106479329266893 * 2 ^ (dscale - 53)"

definition dbl_0_015 :: int where "dbl_0_015 = 1080863910568919 * 2 ^ (dscale - 56)"

definition dbl_0_01 :: int where "dbl_0_01 = 5764607523034235 * 2 ^ (dscale - 59)"

record ExplosionParticle_d =
  d_alpha :: int
  d_decay :: int

text \<open>
  The two lines of \<open>initialize\<close> that set \<open>alpha\<close> and \<open>decay\<close>; \<open>ro\<close> and \<open>rd\<close> are
  the doubles that \<open>Math.random ()\<close> returned for them.
\<close>

definition ExplosionParticle_initialize_d :: "int \<Rightarrow> int \<Rightarrow> ExplosionParticle_d" where
  "ExplosionParticle_initialize_d ro rd =
     \<lparr> d_alpha = dadd (dmul ro dbl_0_1) dbl_0_9,
       d_decay = dadd (dmul rd dbl_0_015) dbl_0_01 \<rparr>"

text \<open>The lines \<open>this.alpha -= this.decay; return this.alpha <= 0.01\<close> of \<open>update\<close>.\<close>

definition ExplosionParticle_update_d :: "ExplosionParticle_d \<Rightarrow> ExplosionParticle_d \<times> bool" where
  "ExplosionParticle_update_d p =
     (let alpha = dsub (d_alpha p) (d_decay p)
      in (p\<lparr> d_alpha := alpha \<rparr>, alpha \<le> dbl_0_01))"

fun exd_after :: "nat \<Rightarrow> ExplosionParticle_d \<Rightarrow> ExplosionParticle_d" where
  "exd_after 0 p = p"
| "exd_after (Suc n) p = exd_after n (fst (ExplosionParticle_update_d p))"

fun exd_life :: "nat \<Rightarrow> ExplosionParticle_d \<Rightarrow> nat option" where
  "exd_life 0 p = None"
| "exd_life (Suc k) p =
     (if snd (ExplosionParticle_update_d p) then Some 1
      else map_option Suc (exd_life k (fst (ExplosionParticle_update_d p))))"

text \<open>The opacity after \<open>k\<close> subtractions of \<open>r\<close>, as a function of the two numbers alone.\<close>

fun opacity_steps :: "nat \<Rightarrow> int \<Rightarrow> int \<Rightarrow> int" where
  "opacity_steps 0 a r = a"
| "opacity_steps (Suc k) a r = opacity_steps k (dsub a r) r"

section \<open>Notions for the proofs\<close>

text \<open>
  Two notions for the proofs about projectiles: the distance \<open>travelled n\<close> that the
  speeds of the first \<open>n\<close> ticks add up to (the speed starts at 2 and is multiplied by
  1.02 before each move), and the relation \<open>fw_inv n p\<close> between a projectile and the
  number of ticks it has made.
\<close>

fun travelled :: "nat \<Rightarrow> real" where
  "travelled 0 = 0"
| "travelled (Suc n) = travelled n + 2 * (102 / 100) ^ Suc n"

definition fw_inv :: "nat \<Rightarrow> FireworkParticle \<Rightarrow> bool" where
  "fw_inv n p \<longleftrightarrow>
     fw_acceleration p = 102 / 100 \<and> fw_speed p = 2 * (102 / 100) ^ n
     \<and> fw_x p = fw_startX p + cos (fw_angle p) * travelled n
     \<and> fw_y p = fw_startY p + sin (fw_angle p) * travelled n
     \<and> fw_currentDistance p = travelled n"


text \<open>
  A simulation loop is inert when it has no drawing context, is not running, has no
  frame pending and no listener installed.
\<close>

definition inert :: "Fireworks \<Rightarrow> bool" where
  "inert s \<longleftrightarrow> ctx s = None \<and> \<not> isRunning s \<and> frames s = [] \<and> \<not> listening s"

text \<open>
  The bookkeeping of the clock's interval is consistent when the installed intervals are
  exactly the one that \<open>intervalId\<close> names.
\<close>

definition clock_ok :: "countdown \<Rightarrow> bool" where
  "clock_ok c \<longleftrightarrow>
     (case intervalId c of None \<Rightarrow> timers c = [] | Some i \<Rightarrow> 0 < i \<and> timers c = [i])"

fun is_tick :: "clock_event \<Rightarrow> bool" where
  "is_tick (Tick i now) = True"
| "is_tick e = False"

section \<open>Properties of the clock\<close>

lemma js_rem_nonneg: "0 \<le> a \<Longrightarrow> 0 < b \<Longrightarrow> js_rem a b = a mod b"
  by (cases "a = 0") (simp_all add: js_rem_def)

lemma calculateTimeUnits_fields:
  "days (calculateTimeUnits d) = d div 1000 div 60 div 60 div 24"
  "hours (calculateTimeUnits d) = js_rem (d div 1000 div 60 div 60) 24"
  "minutes (calculateTimeUnits d) = js_rem (d div 1000 div 60) 60"
  "seconds (calculateTimeUnits d) = js_rem (d div 1000) 60"
  by (simp_all add: calculateTimeUnits_def Let_def)

lemma chain_nonneg:
  assumes "(0::int) \<le> d"
  shows "0 \<le> d div 1000" "0 \<le> d div 1000 div 60" "0 \<le> d div 1000 div 60 div 60"
  using assms by (simp_all add: pos_imp_zdiv_nonneg_iff)

lemma chain_div:
  "(d::int) div 1000 div 60 = d div 60000"
  "(d::int) div 1000 div 60 div 60 = d div 3600000"
  "(d::int) div 1000 div 60 div 60 div 24 = d div 86400000"
  by (simp_all add: div_mult2_eq [symmetric])

lemma decomposition_bounds:
  fixes d :: int
  shows "(d div 1000 div 60 div 60 div 24) * 86400000 + (d div 1000 div 60 div 60 mod 24) * 3600000
           + (d div 1000 div 60 mod 60) * 60000 + (d div 1000 mod 60) * 1000 = d - d mod 1000"
proof -
  define s where "s = d div 1000"
  define m where "m = s div 60"
  define h where "h = m div 60"
  have ds: "d = s * 1000 + d mod 1000" by (simp add: s_def)
  have sm: "s = m * 60 + s mod 60" by (simp add: m_def)
  have mh: "m = h * 60 + m mod 60" by (simp add: h_def)
  have hd: "h = (h div 24) * 24 + h mod 24" by simp
  have "(h div 24) * 86400000 + (h mod 24) * 3600000 + (m mod 60) * 60000 + (s mod 60) * 1000
          = d - d mod 1000"
    using ds sm mh hd by linarith
  then show ?thesis by (simp add: s_def m_def h_def)
qed

lemma calculateTimeUnits_nonneg:
  assumes "0 \<le> d"
  shows "hours (calculateTimeUnits d) = d div 1000 div 60 div 60 mod 24"
    and "minutes (calculateTimeUnits d) = d div 1000 div 60 mod 60"
    and "seconds (calculateTimeUnits d) = d div 1000 mod 60"
  using chain_nonneg [OF assms]
  by (simp_all only: calculateTimeUnits_fields js_rem_nonneg)

lemma calculateTimeUnits_total:
  assumes "0 \<le> d"
  shows "days (calculateTimeUnits d) * 86400000 + hours (calculateTimeUnits d) * 3600000
           + minutes (calculateTimeUnits d) * 60000 + seconds (calculateTimeUnits d) * 1000
         = d - d mod 1000"
  unfolding calculateTimeUnits_nonneg [OF assms] calculateTimeUnits_fields(1)
  by (rule decomposition_bounds)

text \<open>
  C1. For every non-negative duration \<open>d\<close> in milliseconds, \<open>calculateTimeUnits d\<close> has
  hours in 0..23, minutes and seconds in 0..59, and the duration it denotes is at most
  \<open>d\<close> and more than \<open>d - 1000\<close>; the decomposition of 0 is all zero.
\<close>

theorem calculateTimeUnits_decomposition:
  assumes "0 \<le> d"
  shows "0 \<le> hours (calculateTimeUnits d) \<and> hours (calculateTimeUnits d) < 24
       \<and> 0 \<le> minutes (calculateTimeUnits d) \<and> minutes (calculateTimeUnits d) < 60
       \<and> 0 \<le> seconds (calculateTimeUnits d) \<and> seconds (calculateTimeUnits d) < 60
       \<and> days (calculateTimeUnits d) * 86400000 + hours (calculateTimeUnits d) * 3600000
           + minutes (calculateTimeUnits d) * 60000 + seconds (calculateTimeUnits d) * 1000 \<le> d
       \<and> d < days (calculateTimeUnits d) * 86400000 + hours (calculateTimeUnits d) * 3600000
           + minutes (calculateTimeUnits d) * 60000 + seconds (calculateTimeUnits d) * 1000 + 1000
       \<and> calculateTimeUnits 0 = \<lparr> days = 0, hours = 0, minutes = 0, seconds = 0 \<rparr>"
proof -
  note f = calculateTimeUnits_nonneg [OF assms]
  have b1: "0 \<le> hours (calculateTimeUnits d)" "hours (calculateTimeUnits d) < 24"
    unfolding f by (rule pos_mod_sign, simp) (rule pos_mod_bound, simp)
  have b2: "0 \<le> minutes (calculateTimeUnits d)" "minutes (calculateTimeUnits d) < 60"
    unfolding f by (rule pos_mod_sign, simp) (rule pos_mod_bound, simp)
  have b3: "0 \<le> seconds (calculateTimeUnits d)" "seconds (calculateTimeUnits d) < 60"
    unfolding f by (rule pos_mod_sign, simp) (rule pos_mod_bound, simp)
  have r: "0 \<le> d mod 1000" "d mod 1000 < 1000"
    by (rule pos_mod_sign, simp) (rule pos_mod_bound, simp)
  have b4: "days (calculateTimeUnits d) * 86400000 + hours (calculateTimeUnits d) * 3600000
           + minutes (calculateTimeUnits d) * 60000 + seconds (calculateTimeUnits d) * 1000 \<le> d"
    unfolding calculateTimeUnits_total [OF assms] using r by linarith
  have b5: "d < days (calculateTimeUnits d) * 86400000 + hours (calculateTimeUnits d) * 3600000
           + minutes (calculateTimeUnits d) * 60000 + seconds (calculateTimeUnits d) * 1000 + 1000"
    unfolding calculateTimeUnits_total [OF assms] using r by linarith
  have z: "calculateTimeUnits 0 = \<lparr> days = 0, hours = 0, minutes = 0, seconds = 0 \<rparr>"
    by (simp add: calculateTimeUnits_def js_rem_def)
  show ?thesis
    by (intro conjI b1 b2 b3 b4 b5 z)
qed

theorem calculateTimeUnits_decomposition_witness:
  "(0::int) \<le> 93784500
   \<and> calculateTimeUnits 93784500 = \<lparr> days = 1, hours = 2, minutes = 3, seconds = 4 \<rparr>
   \<and> (1::int) * 86400000 + 2 * 3600000 + 3 * 60000 + 4 * 1000 \<le> 93784500
   \<and> (93784500::int) < 1 * 86400000 + 2 * 3600000 + 3 * 60000 + 4 * 1000 + 1000"
  using calculateTimeUnits_decomposition [of 93784500]
  by (simp add: calculateTimeUnits_def js_rem_def Let_def)

text \<open>
  Up to the target, \<open>getRemainingTime\<close> is the decomposition that C2 describes: the
  chained divisions of \<open>calculateTimeUnits\<close> are the divisions by 86400000, 3600000,
  60000 and 1000, with the remainders modulo 24, 60 and 60.
\<close>

lemma getRemainingTime_before_target:
  assumes "now \<le> targetDate c"
  shows "getRemainingTime now c =
           \<lparr> days = (targetDate c - now) div 86400000,
             hours = ((targetDate c - now) div 3600000) mod 24,
             minutes = ((targetDate c - now) div 60000) mod 60,
             seconds = ((targetDate c - now) div 1000) mod 60 \<rparr>"
proof -
  define d where "d = targetDate c - now"
  have d0: "0 \<le> d" using assms by (simp add: d_def)
  note f = calculateTimeUnits_nonneg [OF d0]
  have e1: "days (calculateTimeUnits d) = d div 86400000"
    unfolding calculateTimeUnits_fields(1) by (rule chain_div(3))
  have e2: "hours (calculateTimeUnits d) = d div 3600000 mod 24"
    unfolding f(1) by (simp only: chain_div(2))
  have e3: "minutes (calculateTimeUnits d) = d div 60000 mod 60"
    unfolding f(2) by (simp only: chain_div(1))
  have e4: "seconds (calculateTimeUnits d) = d div 1000 mod 60"
    by (rule f(3))
  have "calculateTimeUnits d =
          \<lparr> days = d div 86400000, hours = (d div 3600000) mod 24,
            minutes = (d div 60000) mod 60, seconds = (d div 1000) mod 60 \<rparr>"
  proof (rule time_units.equality)
    show "days (calculateTimeUnits d) = days \<lparr> days = d div 86400000,
            hours = (d div 3600000) mod 24, minutes = (d div 60000) mod 60,
            seconds = (d div 1000) mod 60 \<rparr>"
      unfolding time_units.select_convs by (rule e1)
    show "hours (calculateTimeUnits d) = hours \<lparr> days = d div 86400000,
            hours = (d div 3600000) mod 24, minutes = (d div 60000) mod 60,
            seconds = (d div 1000) mod 60 \<rparr>"
      unfolding time_units.select_convs by (rule e2)
    show "minutes (calculateTimeUnits d) = minutes \<lparr> days = d div 86400000,
            hours = (d div 3600000) mod 24, minutes = (d div 60000) mod 60,
            seconds = (d div 1000) mod 60 \<rparr>"
      unfolding time_units.select_convs by (rule e3)
    show "seconds (calculateTimeUnits d) = seconds \<lparr> days = d div 86400000,
            hours = (d div 3600000) mod 24, minutes = (d div 60000) mod 60,
            seconds = (d div 1000) mod 60 \<rparr>"
      unfolding time_units.select_convs by (rule e4)
  qed (rule unit_eq [THEN trans, OF unit_eq [symmetric]])
  then show ?thesis
    unfolding getRemainingTime_def Let_def d_def .
qed

text \<open>
  C2. After the target \<open>getRemainingTime\<close> does not clamp the difference at zero: one
  millisecond past midnight of 1 January 2026 (UTC) every component is -1.
\<close>

theorem getRemainingTime_past_target:
  "getRemainingTime 1767225600001 (new_Countdown 1767225600000 (\<lambda>k. Some ''00'') True)
     = \<lparr> days = - 1, hours = - 1, minutes = - 1, seconds = - 1 \<rparr>"
  by (simp add: getRemainingTime_def new_Countdown_def calculateTimeUnits_def js_rem_def Let_def)

text \<open>
  C3. A clock started when the target has already been reached enters \<open>handleNewYear\<close>
  from the first update of \<open>start\<close>, installs its interval all the same, and enters
  \<open>handleNewYear\<close> a second time at the interval's first firing.
\<close>

theorem start_at_target_signals_twice:
  "newYearCalls (clock_run [Start 1767225600000]
                   (new_Countdown 1767225600000 (\<lambda>k. Some ''00'') True)) = 1
   \<and> timers (clock_run [Start 1767225600000]
                   (new_Countdown 1767225600000 (\<lambda>k. Some ''00'') True)) = [1]
   \<and> newYearCalls (clock_run [Start 1767225600000, Tick 1 1767225601000]
                   (new_Countdown 1767225600000 (\<lambda>k. Some ''00'') True)) = 2
   \<and> alerts (clock_run [Start 1767225600000, Tick 1 1767225601000]
                   (new_Countdown 1767225600000 (\<lambda>k. Some ''00'') True)) = 2
   \<and> timers (clock_run [Start 1767225600000, Tick 1 1767225601000]
                   (new_Countdown 1767225600000 (\<lambda>k. Some ''00'') True)) = []"
  by code_simp

subsection \<open>The terminal event on the regular path\<close>

lemma updateUnit_interval:
  "intervalId (updateUnit t k c) = intervalId c" "timers (updateUnit t k c) = timers c"
  "newYearCalls (updateUnit t k c) = newYearCalls c"
  by (simp_all add: updateUnit_def Let_def split: option.splits)

lemma updateDisplay_interval:
  "intervalId (updateDisplay t c) = intervalId c" "timers (updateDisplay t c) = timers c"
  "newYearCalls (updateDisplay t c) = newYearCalls c"
  by (simp_all add: updateDisplay_def updateUnit_interval)

lemma checkSpecialMoments_interval:
  "intervalId (checkSpecialMoments t c) = intervalId c"
  "timers (checkSpecialMoments t c) = timers c"
  "newYearCalls (checkSpecialMoments t c) = newYearCalls c"
  by (simp_all add: checkSpecialMoments_def Let_def)

lemma handleNewYear_interval:
  assumes "clock_ok c"
  shows "intervalId (handleNewYear c) = None" "timers (handleNewYear c) = []"
    "newYearCalls (handleNewYear c) = newYearCalls c + 1"
  using assms
  by (auto simp: handleNewYear_def Let_def showCongratulations_def Countdown_stop_def
      truthy_id_def clock_ok_def split: option.splits)

lemma Countdown_update_ok:
  assumes "clock_ok c"
  shows "clock_ok (Countdown_update now c)"
    and "newYearCalls (Countdown_update now c)
           = (if targetDate c \<le> now then newYearCalls c + 1 else newYearCalls c)"
    and "targetDate c \<le> now \<Longrightarrow> timers (Countdown_update now c) = []"
proof -
  show "clock_ok (Countdown_update now c)"
  proof (cases "targetDate c \<le> now")
    case True
    then have "Countdown_update now c = handleNewYear c"
      by (simp add: Countdown_update_def)
    then show ?thesis using handleNewYear_interval [OF assms] by (simp add: clock_ok_def)
  next
    case False
    then show ?thesis using assms
      by (simp add: Countdown_update_def Let_def clock_ok_def checkSpecialMoments_interval
          updateDisplay_interval split: option.splits)
  qed
  show "newYearCalls (Countdown_update now c)
           = (if targetDate c \<le> now then newYearCalls c + 1 else newYearCalls c)"
    using handleNewYear_interval [OF assms]
    by (simp add: Countdown_update_def Let_def checkSpecialMoments_interval
        updateDisplay_interval)
  show "targetDate c \<le> now \<Longrightarrow> timers (Countdown_update now c) = []"
    using handleNewYear_interval [OF assms] by (simp add: Countdown_update_def)
qed

lemma updateUnit_timers:
  "timers (updateUnit t k c) = timers c" "nextTimer (updateUnit t k c) = nextTimer c"
  by (simp_all add: updateUnit_def Let_def split: option.splits)

lemma updateDisplay_timers:
  "timers (updateDisplay t c) = timers c" "nextTimer (updateDisplay t c) = nextTimer c"
  by (simp_all add: updateDisplay_def updateUnit_timers)

lemma checkSpecialMoments_timers:
  "timers (checkSpecialMoments t c) = timers c"
  "nextTimer (checkSpecialMoments t c) = nextTimer c"
  by (simp_all add: checkSpecialMoments_def Let_def)

lemma handleNewYear_timers_fresh:
  assumes "intervalId c = None"
  shows "timers (handleNewYear c) = timers c" "nextTimer (handleNewYear c) = nextTimer c"
  using assms
  by (simp_all add: handleNewYear_def Let_def showCongratulations_def Countdown_stop_def
      truthy_id_def)

lemma Countdown_update_timers_fresh:
  assumes "intervalId c = None"
  shows "timers (Countdown_update now c) = timers c"
    and "nextTimer (Countdown_update now c) = nextTimer c"
  using assms
  by (simp_all add: Countdown_update_def Let_def handleNewYear_timers_fresh
      checkSpecialMoments_timers updateDisplay_timers)

lemma tick_stopped: "timers c = [] \<Longrightarrow> Countdown_tick i now c = c"
  by (simp add: Countdown_tick_def)

lemma ticks_stopped:
  "timers c = [] \<Longrightarrow> \<forall>e\<in>set es. is_tick e \<Longrightarrow> clock_run es c = c"
proof (induction es)
  case Nil
  show ?case by (simp add: clock_run_def)
next
  case (Cons e es)
  from Cons.prems(2) obtain i now where e: "e = Tick i now" by (cases e) auto
  have "clock_run (e # es) c = clock_run es (Countdown_tick i now c)"
    by (simp add: clock_run_def e)
  also have "\<dots> = clock_run es c" by (simp only: tick_stopped [OF Cons.prems(1)])
  also have "\<dots> = c" using Cons by simp
  finally show ?case .
qed

lemma ticks_signal_at_most_once:
  "clock_ok c \<Longrightarrow> \<forall>e\<in>set es. is_tick e \<Longrightarrow>
     newYearCalls (clock_run es c) \<le> newYearCalls c + 1"
proof (induction es arbitrary: c)
  case Nil
  show ?case by (simp add: clock_run_def)
next
  case (Cons e es)
  from Cons.prems(2) obtain i now where e: "e = Tick i now" by (cases e) auto
  have rest: "\<forall>e\<in>set es. is_tick e" using Cons.prems(2) by simp
  have run: "clock_run (e # es) c = clock_run es (Countdown_tick i now c)"
    by (simp add: clock_run_def e)
  show ?case
  proof (cases "i \<in> set (timers c) \<and> targetDate c \<le> now")
    case True
    then have t: "Countdown_tick i now c = Countdown_update now c"
      by (simp add: Countdown_tick_def)
    have "timers (Countdown_update now c) = []"
      using True Countdown_update_ok(3) [OF Cons.prems(1)] by simp
    then have "clock_run es (Countdown_update now c) = Countdown_update now c"
      using rest by (rule ticks_stopped)
    then show ?thesis
      using True by (simp add: run t Countdown_update_ok(2) [OF Cons.prems(1)])
  next
    case False
    have ok: "clock_ok (Countdown_tick i now c)"
      using Cons.prems(1) by (simp add: Countdown_tick_def Countdown_update_ok(1))
    have same: "newYearCalls (Countdown_tick i now c) = newYearCalls c"
      using False by (auto simp: Countdown_tick_def Countdown_update_ok(2) [OF Cons.prems(1)])
    from Cons.IH [OF ok rest] show ?thesis by (simp add: run same)
  qed
qed

text \<open>
  A clock that is started before its target enters \<open>handleNewYear\<close> at most once,
  however many firings of its interval follow.
\<close>

lemma started_before_target_signals_at_most_once:
  assumes "now < t" and "\<forall>e\<in>set es. is_tick e"
  shows "newYearCalls (clock_run (Start now # es) (new_Countdown t page fwc)) \<le> 1"
proof -
  let ?c = "new_Countdown t page fwc"
  have ok0: "clock_ok ?c" by (simp add: clock_ok_def new_Countdown_def)
  have i0: "intervalId ?c = None" by (simp add: new_Countdown_def)
  have n0: "newYearCalls (Countdown_update now ?c) = 0"
    using assms(1) Countdown_update_ok(2) [OF ok0, of now] by (simp add: new_Countdown_def)
  have u: "intervalId (Countdown_update now ?c) = None" "timers (Countdown_update now ?c) = []"
    "0 < nextTimer (Countdown_update now ?c)"
  proof -
    have d: "\<not> targetDate ?c - now \<le> 0" using assms(1) by (simp add: new_Countdown_def)
    have eq: "Countdown_update now ?c
                = checkSpecialMoments (calculateTimeUnits (targetDate ?c - now))
                    (updateDisplay (calculateTimeUnits (targetDate ?c - now)) ?c)"
      unfolding Countdown_update_def Let_def using d by (simp only: if_False)
    show "intervalId (Countdown_update now ?c) = None"
      unfolding eq by (simp only: checkSpecialMoments_interval updateDisplay_interval i0)
    show "timers (Countdown_update now ?c) = []"
      using Countdown_update_timers_fresh(1) [OF i0, of now] by (simp add: new_Countdown_def)
    show "0 < nextTimer (Countdown_update now ?c)"
      using Countdown_update_timers_fresh(2) [OF i0, of now] by (simp add: new_Countdown_def)
  qed
  have ok1: "clock_ok (Countdown_start now ?c)"
    using u by (simp add: Countdown_start_def Let_def i0 truthy_id_def clock_ok_def)
  have n1: "newYearCalls (Countdown_start now ?c) = 0"
    using n0 by (simp add: Countdown_start_def Let_def i0 truthy_id_def)
  have "clock_run (Start now # es) ?c = clock_run es (Countdown_start now ?c)"
    by (simp add: clock_run_def)
  with ticks_signal_at_most_once [OF ok1 assms(2)] n1 show ?thesis by simp
qed

section \<open>Properties of the particles\<close>

subsection \<open>Explosion points\<close>

lemma ExplosionParticle_update_alpha:
  "ex_alpha (fst (ExplosionParticle_update p)) = ex_alpha p - ex_decay p"
  "ex_decay (fst (ExplosionParticle_update p)) = ex_decay p"
  "snd (ExplosionParticle_update p) = (ex_alpha p - ex_decay p \<le> 1 / 100)"
  by (simp_all add: ExplosionParticle_update_def Let_def)

lemma ex_after_Suc: "ex_after (Suc k) p = fst (ExplosionParticle_update (ex_after k p))"
  by (induction k arbitrary: p) simp_all

lemma ex_after_decay: "ex_decay (ex_after k p) = ex_decay p"
  by (induction k arbitrary: p) (simp_all add: ExplosionParticle_update_alpha)

lemma ex_after_alpha: "ex_alpha (ex_after k p) = ex_alpha p - real k * ex_decay p"
proof (induction k arbitrary: p)
  case 0
  show ?case by simp
next
  case (Suc k)
  have "ex_alpha (ex_after (Suc k) p)
          = ex_alpha (fst (ExplosionParticle_update p))
            - real k * ex_decay (fst (ExplosionParticle_update p))"
    by (simp add: Suc.IH)
  also have "\<dots> = ex_alpha p - ex_decay p - real k * ex_decay p"
    by (simp only: ExplosionParticle_update_alpha)
  also have "\<dots> = ex_alpha p - real (Suc k) * ex_decay p"
    by (simp add: algebra_simps)
  finally show ?case .
qed

lemma ex_life_not_0: "ex_life k p \<noteq> Some 0"
  by (induction k arbitrary: p) auto

lemma ex_life_Some_iff:
  "ex_life k p = Some (Suc i) \<longleftrightarrow>
     i < k \<and> snd (ExplosionParticle_update (ex_after i p))
     \<and> (\<forall>j<i. \<not> snd (ExplosionParticle_update (ex_after j p)))"
proof (induction k arbitrary: p i)
  case 0
  then show ?case by simp
next
  case (Suc k)
  show ?case
  proof (cases "snd (ExplosionParticle_update p)")
    case True
    then show ?thesis by (cases i) auto
  next
    case False
    show ?thesis
    proof (cases i)
      case 0
      with False show ?thesis by (simp add: ex_life_not_0)
    next
      case (Suc i')
      with False Suc.IH [of "fst (ExplosionParticle_update p)" i'] show ?thesis
        by (auto simp: All_less_Suc2)
    qed
  qed
qed



lemma ex_done_iff:
  "snd (ExplosionParticle_update (ex_after k p)) = (ex_alpha (ex_after (Suc k) p) \<le> 1 / 100)"
  unfolding ex_after_Suc by (simp only: ExplosionParticle_update_alpha)

text \<open>
  In exact arithmetic an explosion point with decay rate \<open>r \<ge> 0\<close> has opacity
  \<open>a - k * r\<close> after \<open>k\<close> ticks, where \<open>a\<close> is its initial opacity. This is a fact
  about the model with real numbers only; the doubles of the source are treated below.
\<close>

lemma ex_opacity_exact_arithmetic:
  assumes "0 \<le> ex_decay p"
  shows "ex_alpha (ex_after k p) = ex_alpha p - real k * ex_decay p
       \<and> ex_alpha (ex_after (Suc k) p) \<le> ex_alpha (ex_after k p)
       \<and> snd (ExplosionParticle_update (ex_after k p))
           = (ex_alpha (ex_after (Suc k) p) \<le> 1 / 100)
       \<and> (ex_life n p = Some (Suc i) \<longleftrightarrow>
            i < n \<and> ex_alpha (ex_after (Suc i) p) \<le> 1 / 100
            \<and> (\<forall>j<i. 1 / 100 < ex_alpha (ex_after (Suc j) p)))"
proof -
  have mono: "ex_alpha (ex_after (Suc k) p) \<le> ex_alpha (ex_after k p)"
  proof -
    have "ex_alpha (ex_after (Suc k) p) = ex_alpha (ex_after k p) - ex_decay p"
      unfolding ex_after_Suc by (simp only: ExplosionParticle_update_alpha ex_after_decay)
    then show ?thesis using assms by simp
  qed
  have life: "ex_life n p = Some (Suc i) \<longleftrightarrow>
            i < n \<and> ex_alpha (ex_after (Suc i) p) \<le> 1 / 100
            \<and> (\<forall>j<i. 1 / 100 < ex_alpha (ex_after (Suc j) p))"
    unfolding ex_life_Some_iff ex_done_iff by (simp only: not_le)
  show ?thesis
    by (intro conjI ex_after_alpha mono ex_done_iff life)
qed



subsection \<open>The opacity in double precision\<close>

lemma bitlength_nonpos: "n \<le> 0 \<Longrightarrow> bitlength n = 0"
  by (simp add: bitlength.simps)

lemma bitlength_pos: "0 < n \<Longrightarrow> bitlength n = Suc (bitlength (n div 2))"
  by (subst bitlength.simps) simp

lemma bitlength_less: "n < 2 ^ bitlength n"
proof (induction n rule: bitlength.induct)
  case (1 n)
  show ?case
  proof (cases "n \<le> 0")
    case True
    then show ?thesis by (simp add: bitlength_nonpos)
  next
    case False
    then have "n div 2 < 2 ^ bitlength (n div 2)" by (rule "1.IH")
    then have "n < 2 * 2 ^ bitlength (n div 2)" by linarith
    with False show ?thesis by (simp add: bitlength_pos)
  qed
qed

lemma bitlength_ge: "0 < n \<Longrightarrow> 2 ^ bitlength n \<le> 2 * n"
proof (induction n rule: bitlength.induct)
  case (1 n)
  from "1.prems" have b: "bitlength n = Suc (bitlength (n div 2))" by (rule bitlength_pos)
  show ?case
  proof (cases "n = 1")
    case True
    have "bitlength 1 = Suc (bitlength 0)" using bitlength_pos [of 1] by simp
    then have "bitlength 1 = 1" by (simp add: bitlength_nonpos)
    with True show ?thesis by simp
  next
    case False
    with "1.prems" have p: "0 < n div 2" by simp
    from "1.prems" have "\<not> n \<le> 0" by simp
    from "1.IH" [OF this p] have "2 ^ bitlength (n div 2) \<le> 2 * (n div 2)" .
    also have "\<dots> \<le> n" by simp
    finally show ?thesis by (simp add: b)
  qed
qed

lemma bitlength_unique:
  assumes "0 < n" and "2 ^ k \<le> 2 * n" and "n < 2 ^ k"
  shows "bitlength n = k"
proof -
  have "(2::int) ^ bitlength n \<le> 2 * n" using assms(1) by (rule bitlength_ge)
  also have "\<dots> < 2 * 2 ^ k" using assms(3) by simp
  finally have "(2::int) ^ bitlength n < 2 ^ Suc k" by simp
  then have a: "bitlength n < Suc k" by (simp only: power_strict_increasing_iff)
  have "(2::int) ^ k \<le> 2 * n" by (rule assms(2))
  also have "\<dots> < 2 * 2 ^ bitlength n" using bitlength_less [of n] by simp
  finally have "(2::int) ^ k < 2 ^ Suc (bitlength n)" by simp
  then have "k < Suc (bitlength n)" by (simp only: power_strict_increasing_iff)
  with a show ?thesis by simp
qed

lemma bitlength_scale:
  assumes "0 < n"
  shows "bitlength (n * 2 ^ j) = bitlength n + j"
proof (rule bitlength_unique)
  show "0 < n * 2 ^ j" using assms by simp
  have "(2::int) ^ (bitlength n + j) = 2 ^ bitlength n * 2 ^ j" by (simp add: power_add)
  also have "\<dots> \<le> (2 * n) * 2 ^ j"
    using bitlength_ge [OF assms] by (intro mult_right_mono) simp_all
  finally show "2 ^ (bitlength n + j) \<le> 2 * (n * 2 ^ j)" by simp
  have "n * 2 ^ j < 2 ^ bitlength n * 2 ^ j"
    using bitlength_less [of n] by (intro mult_strict_right_mono) simp_all
  then show "n * 2 ^ j < 2 ^ (bitlength n + j)" by (simp add: power_add)
qed


lemma round_to_exact: "2 ^ sh dvd n \<Longrightarrow> round_to sh n = n"
  by (simp add: round_to_def Let_def)

lemma round_to_grid:
  fixes n :: int
  shows "\<exists>k. round_to sh n = k * 2 ^ sh
           \<and> (k = n div 2 ^ sh \<or> k = n div 2 ^ sh + 1)
           \<and> (n mod 2 ^ sh = 0 \<longrightarrow> k = n div 2 ^ sh)
           \<and> 2 * \<bar>k * 2 ^ sh - n\<bar> \<le> 2 ^ sh"
proof -
  define U :: int where "U = 2 ^ sh"
  define q where "q = n div U"
  define r where "r = n mod U"
  define k where "k = (if 2 * r < U then q else if U < 2 * r then q + 1
                       else if even q then q else q + 1)"
  have U: "0 < U" by (simp add: U_def)
  have n: "n = q * U + r" by (simp add: q_def r_def)
  have r: "0 \<le> r" "r < U" using U by (simp_all add: r_def)
  have 1: "round_to sh n = k * 2 ^ sh"
    by (simp add: round_to_def Let_def k_def q_def r_def U_def)
  have 2: "k = n div 2 ^ sh \<or> k = n div 2 ^ sh + 1"
    by (simp add: k_def q_def U_def)
  have 3: "n mod 2 ^ sh = 0 \<longrightarrow> k = n div 2 ^ sh"
  proof
    assume "n mod 2 ^ sh = 0"
    then have "r = 0" by (simp add: r_def U_def)
    with U show "k = n div 2 ^ sh" by (simp add: k_def q_def U_def)
  qed
  have 4: "2 * \<bar>k * 2 ^ sh - n\<bar> \<le> 2 ^ sh"
  proof -
    have "k * U - n = (k - q) * U - r" unfolding n by (simp add: algebra_simps)
    moreover have "2 * \<bar>(k - q) * U - r\<bar> \<le> U"
      using r by (auto simp: k_def)
    ultimately show ?thesis by (simp add: U_def)
  qed
  from 1 2 3 4 show ?thesis by blast
qed

lemma round_to_scale: "round_to (sh + j) (n * 2 ^ j) = round_to sh n * 2 ^ j"
proof -
  have d: "(n * 2 ^ j) div 2 ^ (sh + j) = n div 2 ^ sh"
    by (simp add: power_add)
  have m: "(n * 2 ^ j) mod 2 ^ (sh + j) = (n mod 2 ^ sh) * 2 ^ j"
    by (simp add: power_add mult.commute [of "2 ^ sh"] mult_mod_left)
  have c1: "2 * ((n mod 2 ^ sh) * 2 ^ j) < (2::int) ^ (sh + j) \<longleftrightarrow> 2 * (n mod 2 ^ sh) < 2 ^ sh"
    by (simp add: power_add)
  have c2: "(2::int) ^ (sh + j) < 2 * ((n mod 2 ^ sh) * 2 ^ j) \<longleftrightarrow> 2 ^ sh < 2 * (n mod 2 ^ sh)"
    by (simp add: power_add)
  show ?thesis
    unfolding round_to_def Let_def d m c1 c2 by (simp add: power_add)
qed


lemma round53_small: "bitlength \<bar>n\<bar> \<le> 53 \<Longrightarrow> round53 n = n"
  by (simp add: round53_def round_to_exact)

lemma bitlength_big:
  assumes "53 < bitlength \<bar>n\<bar>"
  shows "2 ^ (52 + (bitlength \<bar>n\<bar> - 53)) \<le> \<bar>n\<bar>"
    and "\<bar>n\<bar> < 2 ^ (53 + (bitlength \<bar>n\<bar> - 53))"
proof -
  have e: "53 + (bitlength \<bar>n\<bar> - 53) = bitlength \<bar>n\<bar>" using assms by simp
  have p: "0 < \<bar>n\<bar>"
  proof (rule ccontr)
    assume "\<not> 0 < \<bar>n\<bar>"
    then have "bitlength \<bar>n\<bar> = 0" by (simp add: bitlength_nonpos)
    with assms show False by simp
  qed
  show "\<bar>n\<bar> < 2 ^ (53 + (bitlength \<bar>n\<bar> - 53))"
    unfolding e by (rule bitlength_less)
  have "53 + (bitlength \<bar>n\<bar> - 53) = Suc (52 + (bitlength \<bar>n\<bar> - 53))" by simp
  then have "(2::int) * 2 ^ (52 + (bitlength \<bar>n\<bar> - 53)) = 2 ^ (53 + (bitlength \<bar>n\<bar> - 53))"
    by (simp only: power_Suc)
  also have "\<dots> \<le> 2 * \<bar>n\<bar>" unfolding e using p by (rule bitlength_ge)
  finally show "2 ^ (52 + (bitlength \<bar>n\<bar> - 53)) \<le> \<bar>n\<bar>" by simp
qed

text \<open>The relative error of a rounding is at most \<open>2 ^ - 53\<close>.\<close>

lemma round53_error: "2 ^ 53 * \<bar>round53 n - n\<bar> \<le> \<bar>n\<bar>"
proof (cases "bitlength \<bar>n\<bar> \<le> 53")
  case True
  then show ?thesis by (simp add: round53_small)
next
  case False
  define sh where "sh = bitlength \<bar>n\<bar> - 53"
  from False have big: "53 < bitlength \<bar>n\<bar>" by simp
  obtain k where k: "round_to sh n = k * 2 ^ sh" "2 * \<bar>k * 2 ^ sh - n\<bar> \<le> 2 ^ sh"
    using round_to_grid [of sh n] by blast
  have "2 ^ 53 * \<bar>round53 n - n\<bar> = 2 ^ 52 * (2 * \<bar>k * 2 ^ sh - n\<bar>)"
    by (simp add: round53_def sh_def [symmetric] k(1))
  also have "\<dots> \<le> 2 ^ 52 * 2 ^ sh"
    using k(2) by (intro mult_left_mono) simp_all
  also have "\<dots> = 2 ^ (52 + sh)" by (simp add: power_add)
  also have "\<dots> \<le> \<bar>n\<bar>" unfolding sh_def using big by (rule bitlength_big(1))
  finally show ?thesis .
qed

text \<open>Rounding does not pass a double: what is at most the double \<open>a\<close> stays so.\<close>

lemma round53_upper:
  assumes "representable a" and "n \<le> a"
  shows "round53 n \<le> a"
proof (cases "bitlength \<bar>n\<bar> \<le> 53")
  case True
  with assms(2) show ?thesis by (simp add: round53_small)
next
  case False
  define sh where "sh = bitlength \<bar>n\<bar> - 53"
  define U :: int where "U = 2 ^ sh"
  from False have big: "53 < bitlength \<bar>n\<bar>" by simp
  then have sh: "0 < sh" by (simp add: sh_def)
  define P :: int where "P = 2 ^ 52"
  have U: "0 < U" by (simp add: U_def)
  have P: "0 < P" by (simp add: P_def)
  have lo: "P * U \<le> \<bar>n\<bar>"
    using bitlength_big(1) [OF big] by (simp add: sh_def U_def P_def power_add)
  obtain k where k: "round_to sh n = k * U"
    "k = n div U \<or> k = n div U + 1" "n mod U = 0 \<Longrightarrow> k = n div U"
    unfolding U_def using round_to_grid [of sh n] by blast
  have r53: "round53 n = k * U" by (simp add: round53_def sh_def [symmetric] k(1))
  have n: "n = (n div U) * U + n mod U" by simp
  have r: "0 \<le> n mod U" "n mod U < U" using U by simp_all
  from assms(1) obtain m j where a: "a = m * 2 ^ j" and m: "\<bar>m\<bar> < 2 * P"
    by (auto simp: representable_def P_def)
  show ?thesis
  proof (cases "P * U \<le> \<bar>a\<bar>")
    case True
    have "sh \<le> j"
    proof (rule ccontr)
      assume "\<not> sh \<le> j"
      then have "Suc j \<le> sh" by simp
      then have "(2::int) ^ Suc j \<le> 2 ^ sh" by (rule power_increasing) simp
      then have j: "(2::int) * 2 ^ j \<le> U" by (simp add: U_def)
      have "\<bar>a\<bar> = \<bar>m\<bar> * 2 ^ j" by (simp add: a abs_mult)
      also have "\<dots> < (2 * P) * 2 ^ j" using m by (intro mult_strict_right_mono) simp_all
      also have "\<dots> = P * (2 * 2 ^ j)" by simp
      also have "\<dots> \<le> P * U" using j P by (intro mult_left_mono) simp_all
      finally show False using True by simp
    qed
    then have "a = (m * 2 ^ (j - sh)) * U"
      by (simp add: a U_def power_add [symmetric])
    then obtain K where K: "a = K * U" ..
    have "k \<le> K"
    proof (cases "n mod U = 0")
      case True
      then have "k = n div U" by (rule k(3))
      moreover from True n have "n = (n div U) * U" by simp
      with assms(2) K have "(n div U) * U \<le> K * U" by simp
      then have "n div U \<le> K" using U by (simp add: mult_le_cancel_right)
      ultimately show ?thesis by simp
    next
      case False
      with r have "0 < n mod U" by simp
      with n have "(n div U) * U < n" by linarith
      with assms(2) K have "(n div U) * U < K * U" by simp
      then have "n div U < K" using U by (simp add: mult_less_cancel_right)
      with k(2) show ?thesis by auto
    qed
    then have "k * U \<le> K * U" using U by (intro mult_right_mono) simp_all
    then show ?thesis by (simp add: r53 K)
  next
    case False
    then have a1: "- (P * U) < a" by simp
    from False assms(2) have "n < P * U" by simp
    with lo have nn: "n \<le> (- P) * U" by simp
    have "k \<le> - P"
    proof (cases "n mod U = 0")
      case True
      then have "k = n div U" by (rule k(3))
      moreover from True n have "n = (n div U) * U" by simp
      with nn have "(n div U) * U \<le> (- P) * U" by simp
      then have "n div U \<le> - P" using U by (simp only: mult_le_cancel_right, simp?)
      ultimately show ?thesis by simp
    next
      case False
      with r have "0 < n mod U" by simp
      with n have "(n div U) * U < n" by linarith
      with nn have "(n div U) * U < (- P) * U" by simp
      then have "n div U < - P" using U by (simp only: mult_less_cancel_right, simp?)
      with k(2) show ?thesis by auto
    qed
    then have "k * U \<le> (- P) * U" using U by (intro mult_right_mono) simp_all
    with a1 show ?thesis by (simp add: r53)
  qed
qed


lemma round53_0: "round53 0 = 0"
  by (simp add: round53_small bitlength_nonpos)

lemma round53_representable: "representable (round53 n)"
proof (cases "bitlength \<bar>n\<bar> \<le> 53")
  case True
  have "\<bar>n\<bar> < 2 ^ bitlength \<bar>n\<bar>" by (rule bitlength_less)
  also have "(2::int) ^ bitlength \<bar>n\<bar> \<le> 2 ^ 53" using True by (rule power_increasing) simp
  finally have "\<bar>n\<bar> < 2 ^ 53" .
  moreover have "round53 n = n * 2 ^ 0" using True by (simp add: round53_small)
  ultimately show ?thesis unfolding representable_def by blast
next
  case False
  define sh where "sh = bitlength \<bar>n\<bar> - 53"
  define U :: int where "U = 2 ^ sh"
  define P :: int where "P = 2 ^ 52"
  from False have big: "53 < bitlength \<bar>n\<bar>" by simp
  have U: "0 < U" by (simp add: U_def)
  have hi: "\<bar>n\<bar> < (2 * P) * U"
    using bitlength_big(2) [OF big] by (simp add: sh_def U_def P_def power_add)
  obtain k where k: "round_to sh n = k * U" "k = n div U \<or> k = n div U + 1"
    unfolding U_def using round_to_grid [of sh n] by blast
  have r53: "round53 n = k * U" by (simp add: round53_def sh_def [symmetric] k(1))
  have n: "n = (n div U) * U + n mod U" by simp
  have r: "0 \<le> n mod U" "n mod U < U" using U by simp_all
  have "(n div U) * U \<le> n" using n r(1) by linarith
  also have "n < (2 * P) * U" using hi by simp
  finally have "n div U < 2 * P" using U by (simp only: mult_less_cancel_right, simp?)
  then have up: "k \<le> 2 * P" using k(2) by auto
  have "(- (2 * P)) * U < n" using hi by simp
  also have "n < (n div U + 1) * U"
  proof -
    have "(n div U + 1) * U = (n div U) * U + U" by (simp add: algebra_simps)
    with n r(2) show ?thesis by linarith
  qed
  finally have "- (2 * P) < n div U + 1" using U by (simp only: mult_less_cancel_right, simp?)
  then have low: "- (2 * P) \<le> k" using k(2) by auto
  show ?thesis
  proof (cases "\<bar>k\<bar> < 2 * P")
    case True
    then have "\<bar>k\<bar> < 2 ^ 53" by (simp add: P_def)
    with r53 show ?thesis unfolding representable_def U_def by blast
  next
    case False
    with up low have "k = 2 * P \<or> k = - (2 * P)" by linarith
    then show ?thesis
    proof
      assume "k = 2 * P"
      then have "round53 n = P * 2 ^ Suc sh" unfolding r53 U_def by simp
      moreover have "\<bar>P\<bar> < 2 ^ 53" by (simp add: P_def)
      ultimately show ?thesis unfolding representable_def by blast
    next
      assume "k = - (2 * P)"
      then have "round53 n = (- P) * 2 ^ Suc sh" unfolding r53 U_def by simp
      moreover have "\<bar>- P\<bar> < 2 ^ 53" by (simp add: P_def)
      ultimately show ?thesis unfolding representable_def by blast
    qed
  qed
qed

lemma round53_scale: "round53 (n * 2 ^ j) = round53 n * 2 ^ j"
proof (cases "n = 0")
  case True
  then show ?thesis by (simp add: round53_0)
next
  case False
  then have p: "0 < \<bar>n\<bar>" by simp
  have b: "bitlength \<bar>n * 2 ^ j\<bar> = bitlength \<bar>n\<bar> + j"
    using bitlength_scale [OF p, of j] by (simp add: abs_mult)
  show ?thesis
  proof (cases "53 \<le> bitlength \<bar>n\<bar>")
    case True
    then have "bitlength \<bar>n\<bar> + j - 53 = (bitlength \<bar>n\<bar> - 53) + j" by simp
    then show ?thesis by (simp add: round53_def b round_to_scale)
  next
    case False
    then have s: "round53 n = n" by (simp add: round53_small)
    from False have "bitlength \<bar>n\<bar> + j - 53 \<le> j" by simp
    then have "(2::int) ^ (bitlength \<bar>n\<bar> + j - 53) dvd 2 ^ j" by (rule le_imp_power_dvd)
    then have "(2::int) ^ (bitlength \<bar>n\<bar> + j - 53) dvd n * 2 ^ j" by (rule dvd_mult)
    then have "round_to (bitlength \<bar>n\<bar> + j - 53) (n * 2 ^ j) = n * 2 ^ j"
      by (rule round_to_exact)
    then have "round53 (n * 2 ^ j) = n * 2 ^ j" by (simp add: round53_def b)
    then show ?thesis by (simp only: s)
  qed
qed

lemma dsub_scale: "dsub (a * 2 ^ j) (b * 2 ^ j) = dsub a b * 2 ^ j"
proof -
  have "a * 2 ^ j - b * 2 ^ j = (a - b) * 2 ^ j" by (simp add: algebra_simps)
  then show ?thesis by (simp add: dsub_def round53_scale)
qed

lemma dadd_scale: "dadd (a * 2 ^ j) (b * 2 ^ j) = dadd a b * 2 ^ j"
proof -
  have "a * 2 ^ j + b * 2 ^ j = (a + b) * 2 ^ j" by (simp add: algebra_simps)
  then show ?thesis by (simp add: dadd_def round53_scale)
qed

lemma dmul_scale:
  assumes "dscale \<le> i + j"
  shows "dmul (a * 2 ^ i) (b * 2 ^ j) = round53 (a * b) * 2 ^ (i + j - dscale)"
proof -
  define c where "c = a * b"
  define t where "t = i + j - dscale"
  have ij: "i + j = t + dscale" using assms by (simp add: t_def)
  have p: "a * 2 ^ i * (b * 2 ^ j) = c * 2 ^ (i + j)"
    by (simp add: c_def power_add algebra_simps)
  have fin: "x * 2 ^ (i + j) div 2 ^ dscale = x * 2 ^ t" for x :: int
    unfolding ij by (simp add: power_add)
  show ?thesis
  proof (cases "c = 0")
    case True
    then show ?thesis
      unfolding dmul_def p by (simp add: round53_0 round_to_exact c_def [symmetric])
  next
    case False
    then have "0 < \<bar>c\<bar>" by simp
    from bitlength_scale [OF this, of "i + j"]
    have b: "bitlength \<bar>c * 2 ^ (i + j)\<bar> = bitlength \<bar>c\<bar> + (i + j)" by (simp add: abs_mult)
    show ?thesis
    proof (cases "53 \<le> bitlength \<bar>c\<bar>")
      case True
      then have e: "bitlength \<bar>c\<bar> + (i + j) - 53 = (bitlength \<bar>c\<bar> - 53) + (i + j)" by simp
      have "max ((bitlength \<bar>c\<bar> - 53) + (i + j)) dscale = (bitlength \<bar>c\<bar> - 53) + (i + j)"
        using assms by simp
      then have "dmul (a * 2 ^ i) (b * 2 ^ j) = round53 c * 2 ^ (i + j) div 2 ^ dscale"
        unfolding dmul_def p b e by (simp only: round_to_scale round53_def)
      then have "dmul (a * 2 ^ i) (b * 2 ^ j) = round53 c * 2 ^ t" by (simp only: fin)
      then show ?thesis by (simp only: c_def t_def)
    next
      case False
      then have s: "round53 c = c" by (simp add: round53_small)
      define sh where "sh = max (bitlength \<bar>c\<bar> + (i + j) - 53) dscale"
      from False assms have "sh \<le> i + j" by (simp add: sh_def)
      then have "(2::int) ^ sh dvd 2 ^ (i + j)" by (rule le_imp_power_dvd)
      then have "(2::int) ^ sh dvd c * 2 ^ (i + j)" by (rule dvd_mult)
      then have "round_to sh (c * 2 ^ (i + j)) = c * 2 ^ (i + j)" by (rule round_to_exact)
      then have "dmul (a * 2 ^ i) (b * 2 ^ j) = c * 2 ^ (i + j) div 2 ^ dscale"
        unfolding dmul_def p b sh_def by simp
      then have "dmul (a * 2 ^ i) (b * 2 ^ j) = c * 2 ^ t" by (simp only: fin)
      then have "dmul (a * 2 ^ i) (b * 2 ^ j) = round53 c * 2 ^ t" by (simp only: s)
      then show ?thesis by (simp only: c_def t_def)
    qed
  qed
qed

lemma dval_le_iff: "dval a \<le> dval b \<longleftrightarrow> a \<le> b"
  by (simp add: dval_def divide_le_cancel)

lemma dval_less_iff: "dval a < dval b \<longleftrightarrow> a < b"
  by (simp add: dval_def divide_less_cancel)

lemma dval_diff: "dval a - dval b = dval (a - b)"
  by (simp add: dval_def diff_divide_distrib)

lemma dval_abs: "\<bar>dval a\<bar> = dval \<bar>a\<bar>"
  by (simp add: dval_def)

lemma dval_scaled: "j \<le> dscale \<Longrightarrow> dval (m * 2 ^ j) = of_int m / 2 ^ (dscale - j)"
proof -
  assume "j \<le> dscale"
  then have "(2::real) ^ dscale = 2 ^ (dscale - j) * 2 ^ j"
    by (simp add: power_add [symmetric])
  then show ?thesis by (simp add: dval_def)
qed

lemma dval_literal:
  "e \<le> dscale \<Longrightarrow> dval (m * 2 ^ (dscale - e)) = of_int m / 2 ^ e"
  using dval_scaled [of "dscale - e" m] by simp

text \<open>The literals of the source denote the doubles nearest to them.\<close>

lemma literals_nearest:
  "\<bar>dval dbl_0_1 - 1 / 10\<bar> < 1 / 2 ^ 57" "\<bar>dval dbl_0_9 - 9 / 10\<bar> < 1 / 2 ^ 54"
  "\<bar>dval dbl_0_015 - 15 / 1000\<bar> < 1 / 2 ^ 60" "\<bar>dval dbl_0_01 - 1 / 100\<bar> < 1 / 2 ^ 60"
proof -
  have e: "55 \<le> dscale" "53 \<le> dscale" "56 \<le> dscale" "59 \<le> dscale"
    by (simp_all add: dscale_def)
  show "\<bar>dval dbl_0_1 - 1 / 10\<bar> < 1 / 2 ^ 57"
    unfolding dbl_0_1_def dval_literal [OF e(1)] by simp
  show "\<bar>dval dbl_0_9 - 9 / 10\<bar> < 1 / 2 ^ 54"
    unfolding dbl_0_9_def dval_literal [OF e(2)] by simp
  show "\<bar>dval dbl_0_015 - 15 / 1000\<bar> < 1 / 2 ^ 60"
    unfolding dbl_0_015_def dval_literal [OF e(3)] by simp
  show "\<bar>dval dbl_0_01 - 1 / 100\<bar> < 1 / 2 ^ 60"
    unfolding dbl_0_01_def dval_literal [OF e(4)] by simp
qed

lemma dsub_upper: "representable a \<Longrightarrow> 0 \<le> r \<Longrightarrow> dsub a r \<le> a"
  unfolding dsub_def by (rule round53_upper) simp_all

lemma ExplosionParticle_update_d_fields:
  "d_alpha (fst (ExplosionParticle_update_d p)) = dsub (d_alpha p) (d_decay p)"
  "d_decay (fst (ExplosionParticle_update_d p)) = d_decay p"
  "snd (ExplosionParticle_update_d p) = (dsub (d_alpha p) (d_decay p) \<le> dbl_0_01)"
  by (simp_all add: ExplosionParticle_update_d_def Let_def)

lemma exd_after_Suc: "exd_after (Suc k) p = fst (ExplosionParticle_update_d (exd_after k p))"
  by (induction k arbitrary: p) simp_all

lemma exd_after_decay: "d_decay (exd_after k p) = d_decay p"
  by (induction k arbitrary: p) (simp_all add: ExplosionParticle_update_d_fields)

lemma exd_alpha_step:
  "d_alpha (exd_after (Suc k) p) = dsub (d_alpha (exd_after k p)) (d_decay p)"
  unfolding exd_after_Suc by (simp only: ExplosionParticle_update_d_fields exd_after_decay)

lemma exd_done_iff:
  "snd (ExplosionParticle_update_d (exd_after k p))
     = (d_alpha (exd_after (Suc k) p) \<le> dbl_0_01)"
  unfolding exd_alpha_step
  by (simp only: ExplosionParticle_update_d_fields exd_after_decay)

lemma exd_alpha_representable:
  "representable (d_alpha p) \<Longrightarrow> representable (d_alpha (exd_after k p))"
proof (cases k)
  case 0
  assume "representable (d_alpha p)"
  with 0 show ?thesis by simp
next
  case (Suc k')
  show ?thesis unfolding Suc exd_alpha_step dsub_def by (rule round53_representable)
qed

lemma exd_alpha_mono:
  assumes "representable (d_alpha p)" and "0 \<le> d_decay p"
  shows "d_alpha (exd_after (Suc k) p) \<le> d_alpha (exd_after k p)"
  unfolding exd_alpha_step
  using exd_alpha_representable [OF assms(1)] assms(2) by (rule dsub_upper)

lemma exd_alpha_antimono:
  assumes "representable (d_alpha p)" and "0 \<le> d_decay p" and "j \<le> k"
  shows "d_alpha (exd_after k p) \<le> d_alpha (exd_after j p)"
  using assms(3)
proof (induction k)
  case 0
  then show ?case by simp
next
  case (Suc k)
  show ?case
  proof (cases "j = Suc k")
    case True
    then show ?thesis by simp
  next
    case False
    with Suc.prems have "j \<le> k" by simp
    then have "d_alpha (exd_after k p) \<le> d_alpha (exd_after j p)" by (rule Suc.IH)
    with exd_alpha_mono [OF assms(1,2), of k] show ?thesis by simp
  qed
qed

lemma exd_life_not_0: "exd_life k p \<noteq> Some 0"
  by (induction k arbitrary: p) auto

lemma exd_life_Some_iff:
  "exd_life k p = Some (Suc i) \<longleftrightarrow>
     i < k \<and> snd (ExplosionParticle_update_d (exd_after i p))
     \<and> (\<forall>j<i. \<not> snd (ExplosionParticle_update_d (exd_after j p)))"
proof (induction k arbitrary: p i)
  case 0
  then show ?case by simp
next
  case (Suc k)
  show ?case
  proof (cases "snd (ExplosionParticle_update_d p)")
    case True
    then show ?thesis by (cases i) auto
  next
    case False
    show ?thesis
    proof (cases i)
      case 0
      with False show ?thesis by (simp add: exd_life_not_0)
    next
      case (Suc i')
      with False Suc.IH [of "fst (ExplosionParticle_update_d p)" i'] show ?thesis
        by (auto simp: All_less_Suc2)
    qed
  qed
qed

lemma exd_after_steps:
  "d_alpha (exd_after k p) = opacity_steps k (d_alpha p) (d_decay p)"
  by (induction k arbitrary: p) (simp_all add: ExplosionParticle_update_d_fields)

lemma opacity_steps_scale:
  "opacity_steps k (a * 2 ^ j) (r * 2 ^ j) = opacity_steps k a r * 2 ^ j"
  by (induction k arbitrary: a) (simp_all add: dsub_scale)

lemma round_to_nonneg: "0 \<le> n \<Longrightarrow> 0 \<le> round_to sh n"
proof -
  assume n: "0 \<le> n"
  obtain k where k: "round_to sh n = k * 2 ^ sh" "k = n div 2 ^ sh \<or> k = n div 2 ^ sh + 1"
    using round_to_grid [of sh n] by blast
  from n have "0 \<le> n div 2 ^ sh" by (simp add: pos_imp_zdiv_nonneg_iff)
  with k(2) have "0 \<le> k" by auto
  then show ?thesis by (simp add: k(1))
qed

lemma dmul_nonneg: "0 \<le> a \<Longrightarrow> 0 \<le> b \<Longrightarrow> 0 \<le> dmul a b"
  unfolding dmul_def
  by (intro pos_imp_zdiv_nonneg_iff [THEN iffD2] round_to_nonneg mult_nonneg_nonneg) simp_all

text \<open>
  Every explosion point that the constructor makes has a double as its opacity, and a
  decay rate that is not negative.
\<close>

lemma ExplosionParticle_initialize_d_wellformed:
  assumes "0 \<le> rd"
  shows "representable (d_alpha (ExplosionParticle_initialize_d ro rd))"
    and "0 \<le> d_decay (ExplosionParticle_initialize_d ro rd)"
proof -
  show "representable (d_alpha (ExplosionParticle_initialize_d ro rd))"
    by (simp add: ExplosionParticle_initialize_d_def dadd_def round53_representable)
  have "0 \<le> dbl_0_015" "0 \<le> dbl_0_01" by (simp_all add: dbl_0_015_def dbl_0_01_def)
  with assms have "0 \<le> dmul rd dbl_0_015 + dbl_0_01" by (simp add: dmul_nonneg)
  then have "0 \<le> round_to (bitlength \<bar>dmul rd dbl_0_015 + dbl_0_01\<bar> - 53)
                     (dmul rd dbl_0_015 + dbl_0_01)"
    by (rule round_to_nonneg)
  then show "0 \<le> d_decay (ExplosionParticle_initialize_d ro rd)"
    by (simp add: ExplosionParticle_initialize_d_def dadd_def round53_def)
qed

lemma rescale: "e = d + f \<Longrightarrow> m * (2::int) ^ e = (m * 2 ^ d) * 2 ^ f"
  by (simp add: power_add)

text \<open>
  The explosion point whose constructor drew 0.375 for the opacity and 0.5 for the
  decay: its opacity is 0.9375 and its decay rate is the double next to 0.0175.
\<close>

lemma example_point:
  "d_alpha (ExplosionParticle_initialize_d (3 * 2 ^ (dscale - 3)) (1 * 2 ^ (dscale - 1)))
     = 15 * 2 ^ (dscale - 4)"
  "d_decay (ExplosionParticle_initialize_d (3 * 2 ^ (dscale - 3)) (1 * 2 ^ (dscale - 1)))
     = 10088063165309912 * 2 ^ (dscale - 59)"
proof -
  have m1: "dmul (3 * 2 ^ (dscale - 3)) dbl_0_1 = 10808639105689192 * 2 ^ (dscale - 58)"
  proof -
    have "dscale \<le> (dscale - 3) + (dscale - 55)" by (simp add: dscale_def)
    then have "dmul (3 * 2 ^ (dscale - 3)) (3602879701896397 * 2 ^ (dscale - 55))
                 = round53 (3 * 3602879701896397) * 2 ^ ((dscale - 3) + (dscale - 55) - dscale)"
      by (rule dmul_scale)
    moreover have "(dscale - 3) + (dscale - 55) - dscale = dscale - 58" by (simp add: dscale_def)
    moreover have "round53 (3 * 3602879701896397) = 10808639105689192" by code_simp
    ultimately show ?thesis by (simp only: dbl_0_1_def)
  qed
  have s1: "dbl_0_9 = (8106479329266893 * 2 ^ 5) * 2 ^ (dscale - 58)"
    unfolding dbl_0_9_def by (rule rescale) (simp add: dscale_def)
  have a1: "dadd 10808639105689192 (8106479329266893 * 2 ^ 5) = 15 * 2 ^ 54" by code_simp
  have "dadd (dmul (3 * 2 ^ (dscale - 3)) dbl_0_1) dbl_0_9 = (15 * 2 ^ 54) * 2 ^ (dscale - 58)"
    unfolding m1 s1 dadd_scale a1 ..
  also have "\<dots> = 15 * 2 ^ (dscale - 4)"
    by (rule rescale [symmetric]) (simp add: dscale_def)
  finally show "d_alpha (ExplosionParticle_initialize_d (3 * 2 ^ (dscale - 3)) (1 * 2 ^ (dscale - 1)))
     = 15 * 2 ^ (dscale - 4)"
    by (simp add: ExplosionParticle_initialize_d_def)
  have m2: "dmul (1 * 2 ^ (dscale - 1)) dbl_0_015 = 1080863910568919 * 2 ^ (dscale - 57)"
  proof -
    have "dscale \<le> (dscale - 1) + (dscale - 56)" by (simp add: dscale_def)
    then have "dmul (1 * 2 ^ (dscale - 1)) (1080863910568919 * 2 ^ (dscale - 56))
                 = round53 (1 * 1080863910568919) * 2 ^ ((dscale - 1) + (dscale - 56) - dscale)"
      by (rule dmul_scale)
    moreover have "(dscale - 1) + (dscale - 56) - dscale = dscale - 57" by (simp add: dscale_def)
    moreover have "round53 (1 * 1080863910568919) = 1080863910568919" by code_simp
    ultimately show ?thesis by (simp only: dbl_0_015_def)
  qed
  have s2: "1080863910568919 * (2::int) ^ (dscale - 57) = (1080863910568919 * 2 ^ 2) * 2 ^ (dscale - 59)"
    by (rule rescale) (simp add: dscale_def)
  have a2: "dadd (1080863910568919 * 2 ^ 2) 5764607523034235 = 10088063165309912" by code_simp
  have "dadd (dmul (1 * 2 ^ (dscale - 1)) dbl_0_015) dbl_0_01
          = 10088063165309912 * 2 ^ (dscale - 59)"
    unfolding m2 s2 dbl_0_01_def dadd_scale a2 ..
  then show "d_decay (ExplosionParticle_initialize_d (3 * 2 ^ (dscale - 3)) (1 * 2 ^ (dscale - 1)))
     = 10088063165309912 * 2 ^ (dscale - 59)"
    by (simp add: ExplosionParticle_initialize_d_def)
qed

lemma example_steps:
  "opacity_steps 53 (15 * 2 ^ 55) 10088063165309912 = 5764607523034616"
  "opacity_steps 54 (15 * 2 ^ 55) 10088063165309912 = - 4323455642275296"
  by code_simp+

lemma example_opacity:
  "d_alpha (exd_after 53 (ExplosionParticle_initialize_d (3 * 2 ^ (dscale - 3)) (1 * 2 ^ (dscale - 1))))
     = 5764607523034616 * 2 ^ (dscale - 59)"
  "d_alpha (exd_after 54 (ExplosionParticle_initialize_d (3 * 2 ^ (dscale - 3)) (1 * 2 ^ (dscale - 1))))
     = (- 4323455642275296) * 2 ^ (dscale - 59)"
proof -
  have a: "15 * (2::int) ^ (dscale - 4) = (15 * 2 ^ 55) * 2 ^ (dscale - 59)"
    by (rule rescale) (simp add: dscale_def)
  show "d_alpha (exd_after 53 (ExplosionParticle_initialize_d (3 * 2 ^ (dscale - 3)) (1 * 2 ^ (dscale - 1))))
     = 5764607523034616 * 2 ^ (dscale - 59)"
    unfolding exd_after_steps example_point a opacity_steps_scale example_steps ..
  show "d_alpha (exd_after 54 (ExplosionParticle_initialize_d (3 * 2 ^ (dscale - 3)) (1 * 2 ^ (dscale - 1))))
     = (- 4323455642275296) * 2 ^ (dscale - 59)"
    unfolding exd_after_steps example_point a opacity_steps_scale example_steps ..
qed

text \<open>
  C9, as the claim states it: take the explosion point whose constructor drew 0.375 for
  the opacity and 0.5 for the decay. Its opacity is 0.9375 and its decay rate the double
  next to 0.0175. The initial opacity minus 53 times the decay rate is below 0.01, but
  the opacity that 53 ticks leave is above 0.01, so the two differ: tick 53 does not
  report the removal, tick 54 does.
\<close>

theorem opacity_after_53_ticks_differs:
  "dval (d_alpha (ExplosionParticle_initialize_d (3 * 2 ^ (dscale - 3)) (1 * 2 ^ (dscale - 1))))
     = 9375 / 10000
   \<and> dval (d_alpha (ExplosionParticle_initialize_d (3 * 2 ^ (dscale - 3)) (1 * 2 ^ (dscale - 1))))
       - 53 * dval (d_decay (ExplosionParticle_initialize_d (3 * 2 ^ (dscale - 3))
                               (1 * 2 ^ (dscale - 1))))
       \<le> 1 / 100
   \<and> 1 / 100 < dval (d_alpha (exd_after 53
         (ExplosionParticle_initialize_d (3 * 2 ^ (dscale - 3)) (1 * 2 ^ (dscale - 1)))))
   \<and> dval (d_alpha (exd_after 53
         (ExplosionParticle_initialize_d (3 * 2 ^ (dscale - 3)) (1 * 2 ^ (dscale - 1)))))
       \<noteq> dval (d_alpha (ExplosionParticle_initialize_d (3 * 2 ^ (dscale - 3))
                          (1 * 2 ^ (dscale - 1))))
         - 53 * dval (d_decay (ExplosionParticle_initialize_d (3 * 2 ^ (dscale - 3))
                                 (1 * 2 ^ (dscale - 1))))
   \<and> \<not> snd (ExplosionParticle_update_d (exd_after 52
         (ExplosionParticle_initialize_d (3 * 2 ^ (dscale - 3)) (1 * 2 ^ (dscale - 1)))))
   \<and> exd_life 99 (ExplosionParticle_initialize_d (3 * 2 ^ (dscale - 3)) (1 * 2 ^ (dscale - 1)))
       = Some 54"
proof -
  let ?P = "ExplosionParticle_initialize_d (3 * 2 ^ (dscale - 3)) (1 * 2 ^ (dscale - 1))"
  have e: "4 \<le> dscale" "59 \<le> dscale" by (simp_all add: dscale_def)
  have v0: "dval (d_alpha ?P) = 9375 / 10000"
    unfolding example_point dval_literal [OF e(1)] by simp
  have vd: "dval (d_decay ?P) = 10088063165309912 / 2 ^ 59"
    unfolding example_point dval_literal [OF e(2)] by simp
  have v53: "dval (d_alpha (exd_after 53 ?P)) = 5764607523034616 / 2 ^ 59"
    unfolding example_opacity dval_literal [OF e(2)] by simp
  have f: "dval (d_alpha ?P) - 53 * dval (d_decay ?P) \<le> 1 / 100"
    unfolding v0 vd by simp
  have g: "1 / 100 < dval (d_alpha (exd_after 53 ?P))"
    unfolding v53 by simp
  have ne: "dval (d_alpha (exd_after 53 ?P)) \<noteq> dval (d_alpha ?P) - 53 * dval (d_decay ?P)"
    using f g by linarith
  have c: "dbl_0_01 < d_alpha (exd_after 53 ?P)"
    unfolding example_opacity dbl_0_01_def by simp
  have d: "d_alpha (exd_after 54 ?P) \<le> dbl_0_01"
    unfolding example_opacity dbl_0_01_def by simp
  have rep: "representable (d_alpha ?P)"
    and nn: "0 \<le> d_decay ?P"
    by (rule ExplosionParticle_initialize_d_wellformed, simp)+
  have n52: "\<not> snd (ExplosionParticle_update_d (exd_after 52 ?P))"
    using c exd_done_iff [of 52 ?P] by simp
  have before: "\<not> snd (ExplosionParticle_update_d (exd_after j ?P))" if "j < 53" for j
  proof -
    from that have "Suc j \<le> 53" by simp
    with rep nn have "d_alpha (exd_after 53 ?P) \<le> d_alpha (exd_after (Suc j) ?P)"
      by (rule exd_alpha_antimono)
    with c have "dbl_0_01 < d_alpha (exd_after (Suc j) ?P)" by simp
    then show ?thesis by (simp add: exd_done_iff del: exd_after.simps)
  qed
  have at: "snd (ExplosionParticle_update_d (exd_after 53 ?P))"
    using d exd_done_iff [of 53 ?P] by simp
  have "exd_life 99 ?P = Some (Suc 53)"
    unfolding exd_life_Some_iff using at before by simp
  then have l: "exd_life 99 ?P = Some 54" by simp
  show ?thesis
    by (intro conjI v0 f g ne n52 l)
qed

text \<open>
  C9, amended. For an explosion point whose opacity is a double and whose decay rate
  \<open>r\<close> is not negative, each tick replaces the opacity \<open>a\<close> by the double nearest to
  \<open>a - r\<close>, which differs from \<open>a - r\<close> by at most \<open>\<bar>a - r\<bar> / 2 ^ 53\<close>; so the
  opacity after \<open>k\<close> ticks is the initial opacity minus \<open>k * r\<close> up to these rounding
  errors only. The opacity never grows from one tick to the next. A tick returns the
  removal flag exactly when the opacity it leaves is at most the double 0.01, and so
  the point is removed at the first tick that leaves such an opacity.
\<close>

theorem explosion_opacity_double:
  assumes "representable (d_alpha p)" and "0 \<le> d_decay p"
  shows "d_alpha (exd_after (Suc k) p) = round53 (d_alpha (exd_after k p) - d_decay p)
       \<and> \<bar>dval (d_alpha (exd_after (Suc k) p))
            - (dval (d_alpha (exd_after k p)) - dval (d_decay p))\<bar>
           \<le> \<bar>dval (d_alpha (exd_after k p)) - dval (d_decay p)\<bar> / 2 ^ 53
       \<and> dval (d_alpha (exd_after (Suc k) p)) \<le> dval (d_alpha (exd_after k p))
       \<and> snd (ExplosionParticle_update_d (exd_after k p))
           = (dval (d_alpha (exd_after (Suc k) p)) \<le> dval dbl_0_01)
       \<and> (exd_life n p = Some (Suc i) \<longleftrightarrow>
            i < n \<and> dval (d_alpha (exd_after (Suc i) p)) \<le> dval dbl_0_01
            \<and> (\<forall>j<i. dval dbl_0_01 < dval (d_alpha (exd_after (Suc j) p))))"
proof -
  have step: "d_alpha (exd_after (Suc k) p) = round53 (d_alpha (exd_after k p) - d_decay p)"
    unfolding exd_alpha_step dsub_def ..
  have err: "\<bar>dval (d_alpha (exd_after (Suc k) p))
            - (dval (d_alpha (exd_after k p)) - dval (d_decay p))\<bar>
           \<le> \<bar>dval (d_alpha (exd_after k p)) - dval (d_decay p)\<bar> / 2 ^ 53"
  proof -
    define x where "x = d_alpha (exd_after k p) - d_decay p"
    have "2 ^ 53 * \<bar>round53 x - x\<bar> \<le> \<bar>x\<bar>" by (rule round53_error)
    then have "(of_int (2 ^ 53 * \<bar>round53 x - x\<bar>) :: real) \<le> of_int \<bar>x\<bar>"
      by (simp only: of_int_le_iff)
    then have r: "\<bar>real_of_int (round53 x) - real_of_int x\<bar> \<le> \<bar>real_of_int x\<bar> / 2 ^ 53"
      by simp
    have "\<bar>dval (round53 x) - dval x\<bar>
            = \<bar>real_of_int (round53 x) - real_of_int x\<bar> / 2 ^ dscale"
      by (simp add: dval_def diff_divide_distrib [symmetric])
    also have "\<dots> \<le> (\<bar>real_of_int x\<bar> / 2 ^ 53) / 2 ^ dscale"
      using r by (rule divide_right_mono) simp
    also have "\<dots> = \<bar>dval x\<bar> / 2 ^ 53" by (simp add: dval_def)
    finally have "\<bar>dval (round53 x) - dval x\<bar> \<le> \<bar>dval x\<bar> / 2 ^ 53" .
    then show ?thesis unfolding step dval_diff x_def .
  qed
  have mono: "dval (d_alpha (exd_after (Suc k) p)) \<le> dval (d_alpha (exd_after k p))"
    unfolding dval_le_iff using assms by (rule exd_alpha_mono)
  have flag: "snd (ExplosionParticle_update_d (exd_after k p))
           = (dval (d_alpha (exd_after (Suc k) p)) \<le> dval dbl_0_01)"
    unfolding dval_le_iff by (rule exd_done_iff)
  have life: "exd_life n p = Some (Suc i) \<longleftrightarrow>
            i < n \<and> dval (d_alpha (exd_after (Suc i) p)) \<le> dval dbl_0_01
            \<and> (\<forall>j<i. dval dbl_0_01 < dval (d_alpha (exd_after (Suc j) p)))"
    unfolding exd_life_Some_iff exd_done_iff dval_le_iff dval_less_iff
    by (simp only: not_le)
  show ?thesis
    by (intro conjI step err mono flag life)
qed

theorem explosion_opacity_double_witness:
  "representable (d_alpha (ExplosionParticle_initialize_d (3 * 2 ^ (dscale - 3))
                              (1 * 2 ^ (dscale - 1))))
   \<and> 0 \<le> d_decay (ExplosionParticle_initialize_d (3 * 2 ^ (dscale - 3)) (1 * 2 ^ (dscale - 1)))
   \<and> dval (d_alpha (exd_after (Suc 53)
        (ExplosionParticle_initialize_d (3 * 2 ^ (dscale - 3)) (1 * 2 ^ (dscale - 1)))))
       \<le> dval (d_alpha (exd_after 53
        (ExplosionParticle_initialize_d (3 * 2 ^ (dscale - 3)) (1 * 2 ^ (dscale - 1)))))
   \<and> snd (ExplosionParticle_update_d (exd_after 53
        (ExplosionParticle_initialize_d (3 * 2 ^ (dscale - 3)) (1 * 2 ^ (dscale - 1)))))
       = (dval (d_alpha (exd_after (Suc 53)
            (ExplosionParticle_initialize_d (3 * 2 ^ (dscale - 3)) (1 * 2 ^ (dscale - 1)))))
          \<le> dval dbl_0_01)"
proof -
  let ?P = "ExplosionParticle_initialize_d (3 * 2 ^ (dscale - 3)) (1 * 2 ^ (dscale - 1))"
  have rep: "representable (d_alpha ?P)"
    and nn: "0 \<le> d_decay ?P"
    by (rule ExplosionParticle_initialize_d_wellformed, simp)+
  from explosion_opacity_double [OF rep nn, of 53] rep nn show ?thesis by blast
qed

subsection \<open>Projectiles\<close>

lemma FireworkParticle_update_fields:
  "fw_startX (fst (FireworkParticle_update p)) = fw_startX p"
  "fw_startY (fst (FireworkParticle_update p)) = fw_startY p"
  "fw_angle (fst (FireworkParticle_update p)) = fw_angle p"
  "fw_acceleration (fst (FireworkParticle_update p)) = fw_acceleration p"
  "fw_distance (fst (FireworkParticle_update p)) = fw_distance p"
  "fw_speed (fst (FireworkParticle_update p)) = fw_speed p * fw_acceleration p"
  "fw_x (fst (FireworkParticle_update p))
     = fw_x p + cos (fw_angle p) * (fw_speed p * fw_acceleration p)"
  "fw_y (fst (FireworkParticle_update p))
     = fw_y p + sin (fw_angle p) * (fw_speed p * fw_acceleration p)"
  by (simp_all add: FireworkParticle_update_def Let_def)

lemma FireworkParticle_update_distance:
  "fw_currentDistance (fst (FireworkParticle_update p))
     = sqrt ((fw_x (fst (FireworkParticle_update p)) - fw_startX p)
               * (fw_x (fst (FireworkParticle_update p)) - fw_startX p)
             + (fw_y (fst (FireworkParticle_update p)) - fw_startY p)
               * (fw_y (fst (FireworkParticle_update p)) - fw_startY p))"
  "snd (FireworkParticle_update p)
     = (fw_distance p \<le> fw_currentDistance (fst (FireworkParticle_update p)))"
  by (simp_all add: FireworkParticle_update_def Let_def)

lemma travelled_nonneg: "0 \<le> travelled n"
  by (induction n) simp_all

lemma travelled_strict: "travelled n < travelled (Suc n)"
  by simp

lemma travelled_mono: "m \<le> n \<Longrightarrow> travelled m \<le> travelled n"
proof (induction n)
  case 0
  then show ?case by simp
next
  case (Suc n)
  show ?case
  proof (cases "m = Suc n")
    case True
    then show ?thesis by simp
  next
    case False
    with Suc.prems have "m \<le> n" by simp
    then have "travelled m \<le> travelled n" by (rule Suc.IH)
    also have "travelled n \<le> travelled (Suc n)" by simp
    finally show ?thesis .
  qed
qed

lemma travelled_ge: "2 * real n \<le> travelled n"
proof (induction n)
  case 0
  show ?case by simp
next
  case (Suc n)
  have "(1::real) \<le> (102 / 100) ^ Suc n" by (rule one_le_power) simp
  then have "2 \<le> 2 * (102 / 100 :: real) ^ Suc n" by simp
  with Suc.IH show ?case by simp
qed

lemma travelled_closed: "travelled n = 102 * ((102 / 100) ^ n - 1)"
  by (induction n) (simp_all add: algebra_simps)

lemma sqrt_scaled_unit:
  fixes a t :: real
  assumes "0 \<le> t"
  shows "sqrt (cos a * t * (cos a * t) + sin a * t * (sin a * t)) = t"
proof -
  have "cos a * t * (cos a * t) + sin a * t * (sin a * t)
          = (cos a * cos a + sin a * sin a) * (t * t)"
    by (simp only: algebra_simps)
  also have "\<dots> = t * t" by (simp only: sin_cos_squared_add3 mult_1)
  finally have "sqrt (cos a * t * (cos a * t) + sin a * t * (sin a * t)) = sqrt (t * t)"
    by simp
  also have "\<dots> = t" using assms by simp
  finally show ?thesis .
qed

lemma fw_inv_update:
  assumes "fw_inv n p"
  shows "fw_inv (Suc n) (fst (FireworkParticle_update p))"
proof -
  let ?q = "fst (FireworkParticle_update p)"
  from assms have acc: "fw_acceleration p = 102 / 100"
    and sp: "fw_speed p = 2 * (102 / 100) ^ n"
    and px: "fw_x p = fw_startX p + cos (fw_angle p) * travelled n"
    and py: "fw_y p = fw_startY p + sin (fw_angle p) * travelled n"
    by (simp_all add: fw_inv_def)
  have sp': "fw_speed ?q = 2 * (102 / 100) ^ Suc n"
    by (simp add: FireworkParticle_update_fields sp acc)
  have qx: "fw_x ?q = fw_startX p + cos (fw_angle p) * travelled (Suc n)"
    by (simp add: FireworkParticle_update_fields sp acc px algebra_simps)
  have qy: "fw_y ?q = fw_startY p + sin (fw_angle p) * travelled (Suc n)"
    by (simp add: FireworkParticle_update_fields sp acc py algebra_simps)
  have "fw_currentDistance ?q
          = sqrt (cos (fw_angle p) * travelled (Suc n) * (cos (fw_angle p) * travelled (Suc n))
                + sin (fw_angle p) * travelled (Suc n) * (sin (fw_angle p) * travelled (Suc n)))"
    unfolding FireworkParticle_update_distance(1) qx qy by simp
  also have "\<dots> = travelled (Suc n)"
    by (rule sqrt_scaled_unit) (rule travelled_nonneg)
  finally have cd: "fw_currentDistance ?q = travelled (Suc n)" .
  show ?thesis
    unfolding fw_inv_def FireworkParticle_update_fields(1,2,3,4)
    by (intro conjI acc sp' qx qy cd)
qed

lemma fw_inv_reached:
  assumes "fw_inv n p"
  shows "snd (FireworkParticle_update p) = (fw_distance p \<le> travelled (Suc n))"
  using fw_inv_update [OF assms]
  by (simp add: FireworkParticle_update_distance(2) fw_inv_def)

lemma fw_inv_after: "fw_inv n p \<Longrightarrow> fw_inv (n + k) (fw_after k p)"
proof (induction k arbitrary: n p)
  case 0
  then show ?case by simp
next
  case (Suc k)
  from Suc.prems have "fw_inv (Suc n) (fst (FireworkParticle_update p))"
    by (rule fw_inv_update)
  then have "fw_inv (Suc n + k) (fw_after k (fst (FireworkParticle_update p)))"
    by (rule Suc.IH)
  then show ?case by simp
qed

lemma fw_after_distance: "fw_distance (fw_after k p) = fw_distance p"
  by (induction k arbitrary: p) (simp_all add: FireworkParticle_update_fields)

lemma new_FireworkParticle_inv: "fw_inv 0 (new_FireworkParticle x1 y1 x2 y2 c r)"
  by (simp add: fw_inv_def new_FireworkParticle_def FireworkParticle_initialize_def)

lemma new_FireworkParticle_distance:
  "fw_distance (new_FireworkParticle x1 y1 x2 y2 c r)
     = sqrt ((x2 - x1) * (x2 - x1) + (y2 - y1) * (y2 - y1))"
  by (simp add: new_FireworkParticle_def FireworkParticle_initialize_def
      FireworkParticle_calculateDistance_def Let_def)

lemma fw_reached_iff:
  "fw_reached k (new_FireworkParticle x1 y1 x2 y2 c r)
     = (sqrt ((x2 - x1) * (x2 - x1) + (y2 - y1) * (y2 - y1)) \<le> travelled (Suc k))"
proof -
  have "fw_inv (0 + k) (fw_after k (new_FireworkParticle x1 y1 x2 y2 c r))"
    using new_FireworkParticle_inv by (rule fw_inv_after)
  then have "fw_inv k (fw_after k (new_FireworkParticle x1 y1 x2 y2 c r))" by simp
  from fw_inv_reached [OF this] show ?thesis
    by (simp add: fw_reached_def fw_after_distance new_FireworkParticle_distance)
qed

lemma fw_currentDistance_after:
  "fw_currentDistance (fw_after k (new_FireworkParticle x1 y1 x2 y2 c r)) = travelled k"
proof -
  have "fw_inv (0 + k) (fw_after k (new_FireworkParticle x1 y1 x2 y2 c r))"
    using new_FireworkParticle_inv by (rule fw_inv_after)
  then show ?thesis by (simp add: fw_inv_def)
qed

lemma fw_speed_after:
  "fw_speed (fw_after k (new_FireworkParticle x1 y1 x2 y2 c r)) = 2 * (102 / 100) ^ k"
proof -
  have "fw_inv (0 + k) (fw_after k (new_FireworkParticle x1 y1 x2 y2 c r))"
    using new_FireworkParticle_inv by (rule fw_inv_after)
  then show ?thesis by (simp add: fw_inv_def)
qed

lemma fw_flight_not_0: "fw_flight k p \<noteq> Some 0"
  by (induction k arbitrary: p) auto

lemma fw_after_shift: "fw_after j (fst (FireworkParticle_update p)) = fw_after (Suc j) p"
  by simp

lemma fw_flight_Some_iff:
  "fw_flight k p = Some (Suc i) \<longleftrightarrow>
     i < k \<and> fw_reached i p \<and> (\<forall>j<i. \<not> fw_reached j p)"
proof (induction k arbitrary: p i)
  case 0
  then show ?case by simp
next
  case (Suc k)
  show ?case
  proof (cases "snd (FireworkParticle_update p)")
    case True
    then show ?thesis by (cases i) (auto simp: fw_reached_def)
  next
    case False
    show ?thesis
    proof (cases i)
      case 0
      with False show ?thesis by (simp add: fw_flight_not_0 fw_reached_def)
    next
      case (Suc i')
      with False Suc.IH [of "fst (FireworkParticle_update p)" i'] show ?thesis
        by (auto simp: All_less_Suc2 fw_reached_def)
    qed
  qed
qed


lemma fw_reached_shift:
  "fw_reached j (fst (FireworkParticle_update p)) = fw_reached (Suc j) p"
  by (simp add: fw_reached_def)

lemma fw_flight_cong:
  "(\<And>j. fw_reached j p = fw_reached j q) \<Longrightarrow> fw_flight k p = fw_flight k q"
proof (induction k arbitrary: p q)
  case 0
  show ?case by simp
next
  case (Suc k)
  have r0: "snd (FireworkParticle_update p) = snd (FireworkParticle_update q)"
    using Suc.prems [of 0] by (simp add: fw_reached_def)
  have "fw_flight k (fst (FireworkParticle_update p)) = fw_flight k (fst (FireworkParticle_update q))"
  proof (rule Suc.IH)
    fix j
    show "fw_reached j (fst (FireworkParticle_update p))
            = fw_reached j (fst (FireworkParticle_update q))"
      unfolding fw_reached_shift by (rule Suc.prems)
  qed
  with r0 show ?case by simp
qed

lemma travelled_unbounded: "\<exists>j. D \<le> travelled (Suc j)"
proof -
  have "D \<le> 2 * real (nat \<lceil>D / 2\<rceil>)"
    using real_nat_ceiling_ge [of "D / 2"] by simp
  also have "\<dots> \<le> travelled (nat \<lceil>D / 2\<rceil>)" by (rule travelled_ge)
  also have "\<dots> \<le> travelled (Suc (nat \<lceil>D / 2\<rceil>))" by simp
  finally show ?thesis by blast
qed

lemma fw_flight_terminates:
  "\<exists>m. fw_flight m (new_FireworkParticle x1 y1 x2 y2 c r) = Some m"
proof -
  define P where "P = new_FireworkParticle x1 y1 x2 y2 c r"
  obtain j0 where j0: "fw_reached j0 P"
    unfolding P_def fw_reached_iff using travelled_unbounded by blast
  define i where "i = (LEAST j. fw_reached j P)"
  have ri: "fw_reached i P" unfolding i_def using j0 by (rule LeastI)
  have first: "\<forall>j<i. \<not> fw_reached j P" unfolding i_def using not_less_Least by blast
  have "fw_flight (Suc i) P = Some (Suc i)"
    unfolding fw_flight_Some_iff using ri first by simp
  then show ?thesis unfolding P_def by blast
qed

lemma travelled_34_35: "travelled 34 < 100" "100 \<le> travelled 35"
  by (simp_all add: travelled_closed power_divide)

lemma fw_flight_example: "fw_flight 35 (new_FireworkParticle 0 0 0 100 c r) = Some 35"
proof -
  have sq: "sqrt ((0 - 0) * (0 - 0) + (100 - 0) * (100 - 0)) = (100::real)"
  proof -
    have "(0 - 0) * (0 - 0) + (100 - 0) * (100 - 0) = (100::real) * 100" by simp
    then show ?thesis by (simp only: real_sqrt_mult_self) simp
  qed
  have reach: "fw_reached j (new_FireworkParticle 0 0 0 100 c r) = (100 \<le> travelled (Suc j))" for j
    unfolding fw_reached_iff sq ..
  have r34: "fw_reached 34 (new_FireworkParticle 0 0 0 100 c r)"
    unfolding reach using travelled_34_35(2) by simp
  have before: "\<not> fw_reached j (new_FireworkParticle 0 0 0 100 c r)" if "j < 34" for j
  proof -
    from that have "Suc j \<le> 34" by simp
    then have "travelled (Suc j) \<le> travelled 34" by (rule travelled_mono)
    with travelled_34_35(1) have "travelled (Suc j) < 100" by simp
    then show ?thesis unfolding reach by simp
  qed
  have "fw_flight (Suc 34) (new_FireworkParticle 0 0 0 100 c r) = Some (Suc 34)"
    unfolding fw_flight_Some_iff using r34 before by simp
  then show ?thesis by simp
qed

lemma travelled_1: "travelled 1 = 204 / 100"
  by (simp add: travelled_closed)

text \<open>
  C7, as the claim states it: after its first tick the projectile from (0, 0) to
  (0, 100) has not travelled 2 but 2.04, because \<open>update\<close> multiplies the speed by the
  acceleration before it moves the projectile.
\<close>

theorem first_tick_distance_not_2:
  "fw_currentDistance
     (fw_after 1 (new_FireworkParticle 0 0 0 100 (Some \<lparr> hue = 0, saturation = 100 \<rparr>) 0))
     = 204 / 100
   \<and> fw_currentDistance
     (fw_after 1 (new_FireworkParticle 0 0 0 100 (Some \<lparr> hue = 0, saturation = 100 \<rparr>) 0))
     \<noteq> 2"
  unfolding fw_currentDistance_after travelled_1 by simp

text \<open>
  C7, amended. After its first tick the projectile from (0, 0) to (0, 100) has travelled
  2.04, its speed in that tick (2 times 1.02). For every projectile the travelled
  distance grows strictly from each tick to the next; some tick reaches the target, and
  the number of that tick depends on launch and target only, not on colour or
  brightness. For the projectile from (0, 0) to (0, 100) it is tick 35.
\<close>

theorem projectile_travel:
  "fw_speed (fw_after 1 (new_FireworkParticle 0 0 0 100 c r)) = 204 / 100
   \<and> fw_currentDistance (fw_after 1 (new_FireworkParticle 0 0 0 100 c r)) = 204 / 100
   \<and> fw_currentDistance (fw_after n (new_FireworkParticle x1 y1 x2 y2 c r))
       < fw_currentDistance (fw_after (Suc n) (new_FireworkParticle x1 y1 x2 y2 c r))
   \<and> (\<exists>m. fw_flight m (new_FireworkParticle x1 y1 x2 y2 c r) = Some m)
   \<and> fw_flight k (new_FireworkParticle x1 y1 x2 y2 c' r')
       = fw_flight k (new_FireworkParticle x1 y1 x2 y2 c r)
   \<and> fw_flight 35 (new_FireworkParticle 0 0 0 100 c r) = Some 35"
proof -
  have a: "fw_speed (fw_after 1 (new_FireworkParticle 0 0 0 100 c r)) = 204 / 100"
    unfolding fw_speed_after by simp
  have b: "fw_currentDistance (fw_after 1 (new_FireworkParticle 0 0 0 100 c r)) = 204 / 100"
    unfolding fw_currentDistance_after by (rule travelled_1)
  have c: "fw_currentDistance (fw_after n (new_FireworkParticle x1 y1 x2 y2 c r))
       < fw_currentDistance (fw_after (Suc n) (new_FireworkParticle x1 y1 x2 y2 c r))"
    unfolding fw_currentDistance_after by (rule travelled_strict)
  have d: "fw_flight k (new_FireworkParticle x1 y1 x2 y2 c' r')
       = fw_flight k (new_FireworkParticle x1 y1 x2 y2 c r)"
    by (rule fw_flight_cong) (simp only: fw_reached_iff)
  show ?thesis
    by (intro conjI a b c d fw_flight_terminates fw_flight_example)
qed

lemma createParticles_loop_fields:
  "fireworks (createParticles_loop n x0 y0 c s) = fireworks s"
  "length (particles (createParticles_loop n x0 y0 c s)) = length (particles s) + n"
  by (induction n arbitrary: s) simp_all

lemma createParticles_fields:
  "fireworks (createParticles x0 y0 c s) = fireworks s"
  "length (particles (createParticles x0 y0 c s)) = length (particles s) + particleCount s"
  by (simp_all add: createParticles_def createParticles_loop_fields)

text \<open>
  The round of \<open>updateFireworks\<close> on a single projectile whose \<open>update\<close> returns true:
  the projectile is removed and \<open>particleCount\<close> explosion points are added.
\<close>

lemma updateFireworks_single:
  assumes "fireworks s = [p]" and "FireworkParticle_draw p = Inr ()"
    and "snd (FireworkParticle_update p)"
  shows "\<exists>s'. updateFireworks s = Inr s' \<and> fireworks s' = []
           \<and> length (particles s') = length (particles s) + particleCount s"
proof -
  let ?p' = "fst (FireworkParticle_update p)"
  let ?s1 = "s\<lparr> fireworks := [?p'] \<rparr>"
  let ?s2 = "createParticles (fw_x ?p') (fw_y ?p') (fw_color ?p') ?s1"
  have "updateFireworks s = updateFireworks_from (Suc 0) s"
    by (simp add: updateFireworks_def assms(1))
  also have "\<dots> = Inr (?s2\<lparr> fireworks := [] \<rparr>)"
    using assms by (simp add: Let_def createParticles_fields)
  finally have "updateFireworks s = Inr (?s2\<lparr> fireworks := [] \<rparr>)" .
  moreover have "length (particles (?s2\<lparr> fireworks := [] \<rparr>))
                   = length (particles s) + particleCount s"
    by (simp add: createParticles_fields)
  ultimately show ?thesis by simp
qed

lemma new_FireworkParticle_draw:
  "FireworkParticle_draw (new_FireworkParticle x1 y1 x2 y2 (Some col) r) = Inr ()"
  by (simp add: FireworkParticle_draw_def new_FireworkParticle_def
      FireworkParticle_initialize_def)

text \<open>
  C8. When launch and target coincide, the distance to the target is 0 and the heading
  is \<open>atan2 0 0 = 0\<close>; the first tick moves the projectile by 2.04 and returns true, so
  that tick removes the projectile: the round of the loop over a collection that holds
  just this projectile leaves the collection empty and adds the explosion points.
\<close>

theorem coinciding_launch_and_target:
  "fw_distance (new_FireworkParticle x1 y1 x1 y1 c r) = 0
   \<and> fw_angle (new_FireworkParticle x1 y1 x1 y1 c r) = 0
   \<and> fw_currentDistance (fst (FireworkParticle_update (new_FireworkParticle x1 y1 x1 y1 c r)))
       = 204 / 100
   \<and> snd (FireworkParticle_update (new_FireworkParticle x1 y1 x1 y1 c r))
   \<and> fw_flight (Suc k) (new_FireworkParticle x1 y1 x1 y1 c r) = Some 1
   \<and> (fireworks s = [new_FireworkParticle x1 y1 x1 y1 (Some col) r] \<longrightarrow>
        (\<exists>s'. updateFireworks s = Inr s' \<and> fireworks s' = []
              \<and> length (particles s') = length (particles s) + particleCount s))"
proof -
  let ?P = "new_FireworkParticle x1 y1 x1 y1 c r"
  have d0: "fw_distance ?P = 0"
    unfolding new_FireworkParticle_distance by simp
  have a0: "fw_angle ?P = 0"
    by (simp add: new_FireworkParticle_def FireworkParticle_initialize_def atan2_def)
  have "fw_inv (Suc 0) (fst (FireworkParticle_update ?P))"
    using new_FireworkParticle_inv by (rule fw_inv_update)
  then have "fw_currentDistance (fst (FireworkParticle_update ?P)) = travelled 1"
    by (simp add: fw_inv_def)
  then have cd: "fw_currentDistance (fst (FireworkParticle_update ?P)) = 204 / 100"
    by (simp only: travelled_1)
  have fin: "snd (FireworkParticle_update ?P)"
    unfolding FireworkParticle_update_distance(2) d0 cd by simp
  have fl: "fw_flight (Suc k) ?P = Some 1"
    using fin by simp
  have rm: "fireworks s = [new_FireworkParticle x1 y1 x1 y1 (Some col) r] \<longrightarrow>
        (\<exists>s'. updateFireworks s = Inr s' \<and> fireworks s' = []
              \<and> length (particles s') = length (particles s) + particleCount s)"
  proof
    let ?Q = "new_FireworkParticle x1 y1 x1 y1 (Some col) r"
    assume s: "fireworks s = [?Q]"
    have "fw_reached 0 ?Q" unfolding fw_reached_iff by simp
    then have "snd (FireworkParticle_update ?Q)" by (simp add: fw_reached_def)
    with s new_FireworkParticle_draw
    show "\<exists>s'. updateFireworks s = Inr s' \<and> fireworks s' = []
              \<and> length (particles s') = length (particles s) + particleCount s"
      by (rule updateFireworks_single)
  qed
  show ?thesis
    by (intro conjI d0 a0 cd fin fl rm)
qed

theorem coinciding_launch_and_target_witness:
  "fireworks ((new_Fireworks True 800 600 (\<lambda>n. 1 / 2))
       \<lparr> fireworks := [new_FireworkParticle 400 300 400 300
                           (Some \<lparr> hue = 0, saturation = 100 \<rparr>) (1 / 2)] \<rparr>)
     = [new_FireworkParticle 400 300 400 300 (Some \<lparr> hue = 0, saturation = 100 \<rparr>) (1 / 2)]
   \<and> (\<exists>s'. updateFireworks ((new_Fireworks True 800 600 (\<lambda>n. 1 / 2))
              \<lparr> fireworks := [new_FireworkParticle 400 300 400 300
                                  (Some \<lparr> hue = 0, saturation = 100 \<rparr>) (1 / 2)] \<rparr>) = Inr s'
          \<and> fireworks s' = [] \<and> length (particles s') = 120)"
  using coinciding_launch_and_target
    [of 400 300 "Some \<lparr> hue = 0, saturation = 100 \<rparr>" "1 / 2" 0
        "(new_Fireworks True 800 600 (\<lambda>n. 1 / 2))
           \<lparr> fireworks := [new_FireworkParticle 400 300 400 300
                               (Some \<lparr> hue = 0, saturation = 100 \<rparr>) (1 / 2)] \<rparr>"
        "\<lparr> hue = 0, saturation = 100 \<rparr>"]
  by (simp add: new_Fireworks_def initializeCanvas_def)

section \<open>Properties of the simulation loop\<close>

lemma new_Fireworks_missing:
  "canvas (new_Fireworks False w h R) = None"
  "ctx (new_Fireworks False w h R) = None"
  "isRunning (new_Fireworks False w h R) = False"
  "frames (new_Fireworks False w h R) = []"
  "listening (new_Fireworks False w h R) = False"
  "fconsole (new_Fireworks False w h R) = [''error: fireworks canvas not found'']"
  by (simp_all add: new_Fireworks_def initializeCanvas_def)

lemma new_Fireworks_found:
  "canvas (new_Fireworks True w h R) = Some (w, h)"
  "ctx (new_Fireworks True w h R) = Some Context2D"
  "isRunning (new_Fireworks True w h R) = False"
  "frames (new_Fireworks True w h R) = []"
  "nextFrame (new_Fireworks True w h R) = 1"
  "fireworks (new_Fireworks True w h R) = []"
  "rand (new_Fireworks True w h R) = R"
  "randPos (new_Fireworks True w h R) = 0"
  by (simp_all add: new_Fireworks_def initializeCanvas_def)

lemma spawnBurst_fields:
  "isRunning (spawnBurst n s) = isRunning s"
  "fireworks (spawnBurst n s) = fireworks s"
  "particles (spawnBurst n s) = particles s"
  "frames (spawnBurst n s) = frames s"
  "nextFrame (spawnBurst n s) = nextFrame s"
  "ctx (spawnBurst n s) = ctx s"
  "canvas (spawnBurst n s) = canvas s"
  by (simp_all add: spawnBurst_def)

lemma autoSpawn_fields:
  "isRunning (autoSpawn s) = isRunning s"
  "fireworks (autoSpawn s) = fireworks s"
  "particles (autoSpawn s) = particles s"
  "frames (autoSpawn s) = frames s"
  "nextFrame (autoSpawn s) = nextFrame s"
  "ctx (autoSpawn s) = ctx s"
  "canvas (autoSpawn s) = canvas s"
  by (simp_all add: autoSpawn_def Let_def spawnBurst_fields)

lemma updateFireworks_empty: "fireworks s = [] \<Longrightarrow> updateFireworks s = Inr s"
  by (simp add: updateFireworks_def)

lemma updateParticles_empty: "particles s = [] \<Longrightarrow> updateParticles s = Inr s"
  by (simp add: updateParticles_def)

lemma Fireworks_loop_empty:
  assumes "isRunning s" "ctx s = Some cx" "canvas s = Some wh"
    and "fireworks s = []" "particles s = []"
  shows "Fireworks_loop s =
           Inr ((autoSpawn s)\<lparr> animationId := Some (nextFrame (autoSpawn s)),
                                frames := frames (autoSpawn s) @ [nextFrame (autoSpawn s)],
                                nextFrame := nextFrame (autoSpawn s) + 1 \<rparr>)"
  using assms
  by (simp add: Fireworks_loop_def updateFireworks_empty updateParticles_empty Let_def)

lemma Fireworks_start_fresh:
  assumes "\<not> isRunning s" "ctx s = Some cx" "canvas s = Some wh"
  shows "\<exists>s'. Fireworks_start s = Inr s' \<and> isRunning s' \<and> fireworks s' = []
              \<and> particles s' = [] \<and> frames s' = frames s @ [nextFrame s]
              \<and> animationId s' = Some (nextFrame s) \<and> nextFrame s' = nextFrame s + 1
              \<and> ctx s' = ctx s \<and> canvas s' = canvas s"
proof -
  let ?t = "s\<lparr> isRunning := True, fireworks := [], particles := [] \<rparr>"
  have l: "Fireworks_loop ?t =
           Inr ((autoSpawn ?t)\<lparr> animationId := Some (nextFrame (autoSpawn ?t)),
                                frames := frames (autoSpawn ?t) @ [nextFrame (autoSpawn ?t)],
                                nextFrame := nextFrame (autoSpawn ?t) + 1 \<rparr>)"
    by (rule Fireworks_loop_empty [where cx = cx and wh = wh]) (simp_all add: assms)
  show ?thesis
    using assms(1,2) by (simp add: Fireworks_start_def l autoSpawn_fields)
qed

lemma Fireworks_start_noop:
  "isRunning s \<or> ctx s = None \<Longrightarrow> Fireworks_start s = Inr s"
  by (simp add: Fireworks_start_def)

lemma Fireworks_start_running:
  assumes "Fireworks_start s = Inr s'"
  shows "isRunning s' \<or> ctx s' = None"
proof (cases "isRunning s \<or> ctx s = None")
  case True
  with assms show ?thesis by (auto simp: Fireworks_start_def)
next
  case False
  then obtain cx where c: "\<not> isRunning s" "ctx s = Some cx" by auto
  show ?thesis
  proof (cases "canvas s")
    case None
    with c assms show ?thesis by (simp add: Fireworks_start_def Fireworks_loop_def)
  next
    case (Some wh)
    from Fireworks_start_fresh [OF c Some] assms show ?thesis by auto
  qed
qed


text \<open>
  C5, as the claim states it: in the state that the constructor leaves when the page has
  no canvas, the loop is not running, and \<open>start\<close> returns without a change: the loop
  is still not running and no frame is requested.
\<close>

theorem start_without_canvas_does_not_tick:
  "\<not> isRunning (new_Fireworks False 800 600 (\<lambda>n. 0))
   \<and> Fireworks_start (new_Fireworks False 800 600 (\<lambda>n. 0))
       = Inr (new_Fireworks False 800 600 (\<lambda>n. 0))
   \<and> frames (new_Fireworks False 800 600 (\<lambda>n. 0)) = []"
  by (simp add: Fireworks_start_def new_Fireworks_missing)

text \<open>
  C5, amended. \<open>start\<close> of a loop that is running, or that has no drawing context,
  changes nothing. \<open>start\<close> of a loop that is not running and has its canvas and context
  leaves the loop running with both collections empty, after a first tick that has
  requested one frame. In every state a second \<open>start\<close> right after a first changes
  nothing any more, so it adds no tick chain, no projectile and no scheduled spawn.
\<close>

theorem start_idempotent:
  "(isRunning s \<or> ctx s = None \<longrightarrow> Fireworks_start s = Inr s)
   \<and> (\<not> isRunning s \<and> ctx s \<noteq> None \<and> canvas s \<noteq> None \<longrightarrow>
        (\<exists>s'. Fireworks_start s = Inr s' \<and> isRunning s' \<and> fireworks s' = []
              \<and> particles s' = [] \<and> frames s' = frames s @ [nextFrame s]
              \<and> animationId s' = Some (nextFrame s)))
   \<and> (\<forall>s'. Fireworks_start s = Inr s' \<longrightarrow> Fireworks_start s' = Inr s')"
proof (intro conjI impI allI)
  assume "isRunning s \<or> ctx s = None"
  then show "Fireworks_start s = Inr s" by (rule Fireworks_start_noop)
next
  assume a: "\<not> isRunning s \<and> ctx s \<noteq> None \<and> canvas s \<noteq> None"
  then obtain cx wh where "ctx s = Some cx" "canvas s = Some wh" by auto
  with a Fireworks_start_fresh [of s cx wh]
  show "\<exists>s'. Fireworks_start s = Inr s' \<and> isRunning s' \<and> fireworks s' = []
              \<and> particles s' = [] \<and> frames s' = frames s @ [nextFrame s]
              \<and> animationId s' = Some (nextFrame s)"
    by blast
next
  fix s'
  assume "Fireworks_start s = Inr s'"
  then have "isRunning s' \<or> ctx s' = None" by (rule Fireworks_start_running)
  then show "Fireworks_start s' = Inr s'" by (rule Fireworks_start_noop)
qed

theorem start_idempotent_witness:
  "ctx (new_Fireworks False 800 600 (\<lambda>n. 1 / 2)) = None
   \<and> Fireworks_start (new_Fireworks False 800 600 (\<lambda>n. 1 / 2))
       = Inr (new_Fireworks False 800 600 (\<lambda>n. 1 / 2))
   \<and> \<not> isRunning (new_Fireworks True 800 600 (\<lambda>n. 1 / 2))
   \<and> ctx (new_Fireworks True 800 600 (\<lambda>n. 1 / 2)) \<noteq> None
   \<and> canvas (new_Fireworks True 800 600 (\<lambda>n. 1 / 2)) \<noteq> None
   \<and> (\<exists>s'. Fireworks_start (new_Fireworks True 800 600 (\<lambda>n. 1 / 2)) = Inr s'
           \<and> isRunning s' \<and> fireworks s' = [] \<and> particles s' = [] \<and> frames s' = [1]
           \<and> Fireworks_start s' = Inr s')"
proof -
  have h1: "ctx (new_Fireworks False 800 600 (\<lambda>n. 1 / 2)) = None"
    by (simp add: new_Fireworks_missing)
  have h2: "\<not> isRunning (new_Fireworks True 800 600 (\<lambda>n. 1 / 2))
            \<and> ctx (new_Fireworks True 800 600 (\<lambda>n. 1 / 2)) \<noteq> None
            \<and> canvas (new_Fireworks True 800 600 (\<lambda>n. 1 / 2)) \<noteq> None"
    by (simp add: new_Fireworks_found)
  from start_idempotent [of "new_Fireworks False 800 600 (\<lambda>n. 1 / 2)"] h1
  have c1: "Fireworks_start (new_Fireworks False 800 600 (\<lambda>n. 1 / 2))
              = Inr (new_Fireworks False 800 600 (\<lambda>n. 1 / 2))"
    by blast
  from start_idempotent [of "new_Fireworks True 800 600 (\<lambda>n. 1 / 2)"] h2
  obtain s' where s': "Fireworks_start (new_Fireworks True 800 600 (\<lambda>n. 1 / 2)) = Inr s'"
    "isRunning s'" "fireworks s' = []" "particles s' = []"
    "frames s' = frames (new_Fireworks True 800 600 (\<lambda>n. 1 / 2))
                   @ [nextFrame (new_Fireworks True 800 600 (\<lambda>n. 1 / 2))]"
    and again: "Fireworks_start s' = Inr s'"
    by blast
  from s'(5) have "frames s' = [1]" by (simp add: new_Fireworks_found)
  with h1 h2 c1 s'(1-4) again show ?thesis by blast
qed

text \<open>
  \<open>pause\<close> does not cancel the frame that is pending, so a \<open>start\<close> after a \<open>pause\<close>
  requests a second frame beside it: two tick chains are active then.
\<close>

lemma start_pause_start_two_frames:
  "\<exists>s'. loop_run [CallStart, CallPause, CallStart] (new_Fireworks True 800 600 (\<lambda>n. 1 / 2))
           = Inr s'
        \<and> isRunning s' \<and> frames s' = [1, 2]"
proof -
  let ?s0 = "new_Fireworks True 800 600 (\<lambda>n. 1 / 2)"
  from Fireworks_start_fresh [of ?s0 Context2D "(800, 600)"]
  obtain s1 where s1: "Fireworks_start ?s0 = Inr s1" "frames s1 = [1]" "nextFrame s1 = 2"
    "ctx s1 = Some Context2D" "canvas s1 = Some (800, 600)"
    by (auto simp: new_Fireworks_found)
  let ?s2 = "Fireworks_pause s1"
  have p: "\<not> isRunning ?s2" "ctx ?s2 = Some Context2D" "canvas ?s2 = Some (800, 600)"
    "frames ?s2 = [1]" "nextFrame ?s2 = 2"
    using s1 by (simp_all add: Fireworks_pause_def)
  from Fireworks_start_fresh [OF p(1,2,3)]
  obtain s3 where s3: "Fireworks_start ?s2 = Inr s3" "isRunning s3" "frames s3 = [1, 2]"
    by (auto simp: p)
  show ?thesis using s1(1) s3 by simp
qed

subsection \<open>Spawning a projectile\<close>

lemma randomRange_bounds:
  assumes "0 \<le> rand s (randPos s)" "rand s (randPos s) < 1" "lo \<le> hi"
  shows "lo \<le> fst (randomRange lo hi s)" "fst (randomRange lo hi s) \<le> hi"
proof -
  let ?r = "rand s (randPos s)"
  have v: "fst (randomRange lo hi s) = ?r * (hi - lo) + lo"
    by (simp add: randomRange_def Math_random_def)
  have "0 \<le> ?r * (hi - lo)" using assms by simp
  then show "lo \<le> fst (randomRange lo hi s)" unfolding v by simp
  have "?r * (hi - lo) \<le> 1 * (hi - lo)"
    using assms by (intro mult_right_mono) simp_all
  then show "fst (randomRange lo hi s) \<le> hi" unfolding v by simp
qed

text \<open>
  What \<open>spawnFirework\<close> does when all arguments are given, the coordinates are not 0 and
  the canvas is at least 300 wide: one projectile more, launched 30 below the bottom
  edge at a horizontal position between 150 and the width minus 150, with the given
  target and colour.
\<close>

lemma spawnFirework_given:
  assumes "canvas s = Some (w, h)" and "300 \<le> w" and "x \<noteq> 0" and "y \<noteq> 0"
    and "0 \<le> rand s (randPos s)" and "rand s (randPos s) < 1"
  shows "\<exists>p s'. spawnFirework (Some x) (Some y) (Some c) s = Inr s'
           \<and> fireworks s' = fireworks s @ [p]
           \<and> 150 \<le> fw_startX p \<and> fw_startX p \<le> w - 150 \<and> fw_startY p = h + 30
           \<and> fw_targetX p = x \<and> fw_targetY p = y \<and> fw_color p = Some c"
proof -
  have lo: "150 \<le> fst (randomRange 150 (w - 150) s)"
    and hi: "fst (randomRange 150 (w - 150) s) \<le> w - 150"
    using assms by (simp_all add: randomRange_bounds)
  obtain sx s1 where r: "randomRange 150 (w - 150) s = (sx, s1)" by (cases "randomRange 150 (w - 150) s")
  have f1: "fireworks s1 = fireworks s"
    using r by (auto simp: randomRange_def Math_random_def)
  obtain r2 s5 where m: "Math_random s1 = (r2, s5)" by (cases "Math_random s1")
  have f5: "fireworks s5 = fireworks s1"
    using m by (auto simp: Math_random_def)
  have "spawnFirework (Some x) (Some y) (Some c) s =
          Inr (s5\<lparr> fireworks := fireworks s5 @ [new_FireworkParticle sx (h + 30) x y (Some c) r2] \<rparr>)"
    using assms(1,3,4) r m by (simp add: spawnFirework_def truthy_num_def)
  moreover have "fw_startX (new_FireworkParticle sx (h + 30) x y (Some c) r2) = sx"
    "fw_startY (new_FireworkParticle sx (h + 30) x y (Some c) r2) = h + 30"
    "fw_targetX (new_FireworkParticle sx (h + 30) x y (Some c) r2) = x"
    "fw_targetY (new_FireworkParticle sx (h + 30) x y (Some c) r2) = y"
    "fw_color (new_FireworkParticle sx (h + 30) x y (Some c) r2) = Some c"
    by (simp_all add: new_FireworkParticle_def FireworkParticle_initialize_def)
  ultimately show ?thesis
    using lo hi r f1 f5 by simp
qed

text \<open>
  C6. A target coordinate 0 is treated as if it were not given: on an 800 by 600 canvas,
  with \<open>Math.random\<close> returning 0.5, the call \<open>spawnFirework (0, 300, color)\<close> makes a
  projectile with target (400, 300), not (0, 300).
\<close>

theorem spawnFirework_zero_coordinate:
  "map (\<lambda>p. (fw_targetX p, fw_targetY p))
     (case spawnFirework (Some 0) (Some 300) (Some \<lparr> hue = 0, saturation = 100 \<rparr>)
             (new_Fireworks True 800 600 (\<lambda>n. 1 / 2))
      of Inl e \<Rightarrow> [] | Inr s' \<Rightarrow> fireworks s')
   = [(400, 300)]"
  by (simp add: spawnFirework_def truthy_num_def randomRange_def Math_random_def
      new_Fireworks_found new_FireworkParticle_def FireworkParticle_initialize_def)

subsection \<open>A page without the drawing target\<close>

lemma inert_step:
  assumes "inert s"
  shows "\<exists>s'. loop_step s e = Inr s' \<and> inert s'"
proof (cases e)
  case CallStart
  with assms show ?thesis by (simp add: inert_def Fireworks_start_def)
next
  case CallStop
  with assms show ?thesis by (simp add: inert_def Fireworks_stop_def Let_def)
next
  case CallPause
  with assms show ?thesis by (simp add: inert_def Fireworks_pause_def)
next
  case (Frame f)
  with assms show ?thesis by (simp add: inert_def fire_frame_def)
next
  case (Click b cx cy)
  with assms show ?thesis by (simp add: inert_def click_def)
qed

lemma inert_run: "inert s \<Longrightarrow> \<exists>s'. loop_run es s = Inr s' \<and> inert s'"
proof (induction es arbitrary: s)
  case Nil
  then show ?case by simp
next
  case (Cons e es)
  from inert_step [OF Cons.prems, of e]
  obtain s1 where s1: "loop_step s e = Inr s1" "inert s1" by blast
  from Cons.IH [OF s1(2)] s1(1) show ?case by simp
qed

lemma new_Fireworks_inert: "inert (new_Fireworks False w h R)"
  by (simp add: inert_def new_Fireworks_def initializeCanvas_def)

lemma Fireworks_loop_not_running: "\<not> isRunning s \<Longrightarrow> Fireworks_loop s = Inr s"
  by (simp add: Fireworks_loop_def)

text \<open>
  \<open>resume\<close> has no check of the drawing context: without the canvas it sets the running
  flag and the tick raises a \<open>TypeError\<close> at \<open>this.ctx.clearRect\<close>.
\<close>

lemma resume_without_canvas_raises:
  "Fireworks_resume (new_Fireworks False w h R) = Inl TypeError"
  by (simp add: Fireworks_resume_def Fireworks_loop_def new_Fireworks_def initializeCanvas_def)

lemma updateUnit_missing:
  "elements c k = None \<Longrightarrow> elements (updateUnit t k' c) k = None"
  by (auto simp: updateUnit_def Let_def split: option.splits)

lemma updateDisplay_missing:
  "elements c k = None \<Longrightarrow> elements (updateDisplay t c) k = None"
  by (simp add: updateDisplay_def updateUnit_missing)

lemma checkSpecialMoments_elements: "elements (checkSpecialMoments t c) = elements c"
  by (simp add: checkSpecialMoments_def Let_def)

lemma Countdown_stop_elements: "elements (Countdown_stop c) = elements c"
  by (simp add: Countdown_stop_def)

lemma handleNewYear_missing:
  "elements c k = None \<Longrightarrow> elements (handleNewYear c) k = None"
  by (simp add: handleNewYear_def Let_def showCongratulations_def Countdown_stop_elements)

lemma Countdown_update_missing:
  "elements c k = None \<Longrightarrow> elements (Countdown_update now c) k = None"
  by (simp add: Countdown_update_def Let_def handleNewYear_missing updateDisplay_missing
      checkSpecialMoments_elements)

lemma Countdown_start_missing:
  "elements c k = None \<Longrightarrow> elements (Countdown_start now c) k = None"
  by (simp add: Countdown_start_def Let_def Countdown_update_missing)

lemma Countdown_start_fresh:
  "timers (Countdown_start now (new_Countdown t page fwc)) = [1]"
proof -
  have i: "intervalId (new_Countdown t page fwc) = None" by (simp add: new_Countdown_def)
  from Countdown_update_timers_fresh [OF i, of now]
  have "timers (Countdown_update now (new_Countdown t page fwc)) = []"
    "nextTimer (Countdown_update now (new_Countdown t page fwc)) = 1"
    by (simp_all add: new_Countdown_def)
  then show ?thesis using i by (simp add: Countdown_start_def Let_def truthy_id_def)
qed

text \<open>
  C4, as the claim states it: a clock whose four text elements are all missing reports
  nothing when it is made, and its \<open>start\<close> installs the interval all the same.
\<close>

theorem clock_without_elements_starts:
  "console (new_Countdown 1767225600000 (\<lambda>k. None) False) = []
   \<and> timers (Countdown_start 1767139200000 (new_Countdown 1767225600000 (\<lambda>k. None) False)) = [1]
   \<and> intervalId (Countdown_start 1767139200000 (new_Countdown 1767225600000 (\<lambda>k. None) False))
       = Some 1"
  by code_simp

text \<open>
  C4, amended. Without the canvas the constructor of the simulation loop reports the
  missing canvas and leaves the loop inert: a tick does nothing, and every sequence of
  calls of \<open>start\<close>, \<open>stop\<close> and \<open>pause\<close>, of frames and of clicks runs without an error
  and leaves the loop without context, not running and without a pending frame. The
  clock does not check its text elements: it reports nothing, its \<open>start\<close> installs the
  interval, and \<open>start\<close> and \<open>update\<close> leave a missing element alone.
\<close>

theorem missing_target:
  "fconsole (new_Fireworks False w h R) = [''error: fireworks canvas not found'']
   \<and> Fireworks_loop (new_Fireworks False w h R) = Inr (new_Fireworks False w h R)
   \<and> (\<exists>s'. loop_run es (new_Fireworks False w h R) = Inr s'
          \<and> ctx s' = None \<and> \<not> isRunning s' \<and> frames s' = [])
   \<and> console (new_Countdown t page fwc) = []
   \<and> timers (Countdown_start now (new_Countdown t page fwc)) = [1]
   \<and> (elements c k = None \<longrightarrow>
        elements (Countdown_update now c) k = None \<and> elements (Countdown_start now c) k = None)"
proof -
  have a: "fconsole (new_Fireworks False w h R) = [''error: fireworks canvas not found'']"
    by (simp add: new_Fireworks_def initializeCanvas_def)
  have b: "Fireworks_loop (new_Fireworks False w h R) = Inr (new_Fireworks False w h R)"
    by (rule Fireworks_loop_not_running) (simp add: new_Fireworks_def initializeCanvas_def)
  have c: "\<exists>s'. loop_run es (new_Fireworks False w h R) = Inr s'
          \<and> ctx s' = None \<and> \<not> isRunning s' \<and> frames s' = []"
    using inert_run [OF new_Fireworks_inert, of es w h R] by (auto simp: inert_def)
  have d: "console (new_Countdown t page fwc) = []" by (simp add: new_Countdown_def)
  have e: "elements c k = None \<longrightarrow>
        elements (Countdown_update now c) k = None \<and> elements (Countdown_start now c) k = None"
    by (simp add: Countdown_update_missing Countdown_start_missing)
  show ?thesis
    by (intro conjI a b c d Countdown_start_fresh e)
qed

theorem missing_target_witness:
  "elements (new_Countdown 1767225600000 (\<lambda>k. if k = Days then None else Some ''00'') True) Days
     = None
   \<and> elements (Countdown_update 1767139200000
        (new_Countdown 1767225600000 (\<lambda>k. if k = Days then None else Some ''00'') True)) Days
     = None
   \<and> elements (Countdown_start 1767139200000
        (new_Countdown 1767225600000 (\<lambda>k. if k = Days then None else Some ''00'') True)) Days
     = None
   \<and> (\<exists>s'. loop_run [CallStart, Frame 1, CallStop, CallPause, Click False 10 20, CallStart]
               (new_Fireworks False 800 600 (\<lambda>n. 1 / 2)) = Inr s'
          \<and> ctx s' = None \<and> \<not> isRunning s' \<and> frames s' = [])"
proof -
  have h: "elements (new_Countdown 1767225600000 (\<lambda>k. if k = Days then None else Some ''00'') True)
             Days = None"
    by (simp add: new_Countdown_def)
  from missing_target
    [of 800 600 "\<lambda>n. 1 / 2"
        "[CallStart, Frame 1, CallStop, CallPause, Click False 10 20, CallStart]"
        1767225600000 "\<lambda>k. if k = Days then None else Some ''00''" True 1767139200000
        "new_Countdown 1767225600000 (\<lambda>k. if k = Days then None else Some ''00'') True" Days]
    h
  show ?thesis by blast
qed

end
